theory Spec2Isabelle
  imports Complex_Main
begin

section \<open>JavaScript values\<close>

text \<open>
  The route \<^verbatim>\<open>src/app/api/form-validator/route.ts\<close> works on strings, on values that
  \<^verbatim>\<open>JSON.parse\<close> gives, and on thrown errors. Strings are lists of 8-bit characters
  (every literal of the source is ASCII). A number inside a JSON value is kept as the
  real number its text denotes (the code never computes with one); the numbers that
  the code computes with are doubles, see below. \<^verbatim>\<open>undefined\<close> is the \<open>None\<close> of
  \<open>json option\<close>.
\<close>

datatype js_error = JsError (err_name: string) (err_message: string)

datatype json =
    JNull
  | JBool bool
  | JNumber real
  | JString string
  | JArray "json list"
  | JObject "(string \<times> json) list"

text \<open>\<^verbatim>\<open>!v\<close> is \<open>\<not> truthy v\<close>.\<close>

fun truthy :: "json option \<Rightarrow> bool" where
  "truthy None = False"
| "truthy (Some JNull) = False"
| "truthy (Some (JBool b)) = b"
| "truthy (Some (JNumber x)) = (x \<noteq> 0)"
| "truthy (Some (JString s)) = (s \<noteq> [])"
| "truthy (Some (JArray xs)) = True"
| "truthy (Some (JObject kvs)) = True"

fun js_typeof :: "json option \<Rightarrow> string" where
  "js_typeof None = ''undefined''"
| "js_typeof (Some JNull) = ''object''"
| "js_typeof (Some (JBool b)) = ''boolean''"
| "js_typeof (Some (JNumber x)) = ''number''"
| "js_typeof (Some (JString s)) = ''string''"
| "js_typeof (Some (JArray xs)) = ''object''"
| "js_typeof (Some (JObject kvs)) = ''object''"

text \<open>Decimal text of a number, as a template literal prints \<^verbatim>\<open>res.status\<close>.\<close>

definition digit_char :: "nat \<Rightarrow> char" where
  "digit_char d = ''0123456789'' ! d"

function show_nat :: "nat \<Rightarrow> string" where
  "show_nat n = (if n < 10 then [digit_char n] else show_nat (n div 10) @ [digit_char (n mod 10)])"
  by pat_completeness auto
termination
  by (relation "measure id") auto

declare show_nat.simps [simp del]

text \<open>
  Property reads. \<open>js_prop v k\<close> is \<^verbatim>\<open>v.k\<close> for the names the source reads
  (\<^verbatim>\<open>prompt\<close>, \<^verbatim>\<open>candidates\<close>, \<^verbatim>\<open>content\<close>, \<^verbatim>\<open>parts\<close>, \<^verbatim>\<open>text\<close>): none of them is a
  property of a string, a number, a boolean or an array, nor of \<^verbatim>\<open>Object.prototype\<close>.
  \<open>js_index v i\<close> is \<^verbatim>\<open>v[i]\<close>: an element of an array, a one-character string of a
  string, the property named by the decimal text of \<open>i\<close> of an object.
  \<open>opt_prop\<close> and \<open>opt_index\<close> are \<^verbatim>\<open>?.k\<close> and \<^verbatim>\<open>?.[i]\<close>; \<open>nullish_or\<close> is \<^verbatim>\<open>??\<close>.
\<close>

fun js_prop :: "json \<Rightarrow> string \<Rightarrow> json option" where
  "js_prop (JObject kvs) k = map_of kvs k"
| "js_prop v k = None"

fun js_index :: "json \<Rightarrow> nat \<Rightarrow> json option" where
  "js_index (JArray xs) i = (if i < length xs then Some (xs ! i) else None)"
| "js_index (JString s) i = (if i < length s then Some (JString [s ! i]) else None)"
| "js_index (JObject kvs) i = map_of kvs (show_nat i)"
| "js_index v i = None"

fun opt_prop :: "json option \<Rightarrow> string \<Rightarrow> json option" where
  "opt_prop None k = None"
| "opt_prop (Some JNull) k = None"
| "opt_prop (Some v) k = js_prop v k"

fun opt_index :: "json option \<Rightarrow> nat \<Rightarrow> json option" where
  "opt_index None i = None"
| "opt_index (Some JNull) i = None"
| "opt_index (Some v) i = js_index v i"

fun nullish_or :: "json option \<Rightarrow> json \<Rightarrow> json" where
  "nullish_or None d = d"
| "nullish_or (Some JNull) d = d"
| "nullish_or (Some v) d = v"

text \<open>\<^verbatim>\<open>msg.includes(needle)\<close>.\<close>

fun str_includes :: "string \<Rightarrow> string \<Rightarrow> bool" where
  "str_includes [] needle = (needle = [])"
| "str_includes (c # cs) needle = (take (length needle) (c # cs) = needle \<or> str_includes cs needle)"

section \<open>Regular expressions\<close>

text \<open>
  The two patterns of the source are sequences of items that match one character, or a
  greedy run of characters of a class. \<open>rx_match_here\<close> is the backtracking matcher at a
  fixed start: a run first takes one more character and gives it back only when the rest
  of the pattern fails. It returns the text each item consumed. \<open>rx_search\<close> is
  \<^verbatim>\<open>String.prototype.match\<close> for a pattern without the \<^verbatim>\<open>g\<close> flag: the match at the
  leftmost start that has one. \<^verbatim>\<open>m[0]\<close> is the concatenation of the pieces, a capture
  group is the piece of its item.
\<close>

datatype rx_item = One "char \<Rightarrow> bool" | Many0 "char \<Rightarrow> bool" | Many1 "char \<Rightarrow> bool"

fun cons_first :: "char \<Rightarrow> string list \<Rightarrow> string list" where
  "cons_first c [] = [[c]]"
| "cons_first c (g # gs) = (c # g) # gs"

fun rx_match_here :: "rx_item list \<Rightarrow> string \<Rightarrow> string list option" where
  "rx_match_here [] s = Some []"
| "rx_match_here (One p # r) [] = None"
| "rx_match_here (One p # r) (c # cs) =
     (if p c then map_option (\<lambda>gs. [c] # gs) (rx_match_here r cs) else None)"
| "rx_match_here (Many0 p # r) [] = map_option (\<lambda>gs. [] # gs) (rx_match_here r [])"
| "rx_match_here (Many0 p # r) (c # cs) =
     (case (if p c then rx_match_here (Many0 p # r) cs else None) of
        Some gs \<Rightarrow> Some (cons_first c gs)
      | None \<Rightarrow> map_option (\<lambda>gs. [] # gs) (rx_match_here r (c # cs)))"
| "rx_match_here (Many1 p # r) [] = None"
| "rx_match_here (Many1 p # r) (c # cs) =
     (if p c then map_option (cons_first c) (rx_match_here (Many0 p # r) cs) else None)"

fun rx_search :: "rx_item list \<Rightarrow> string \<Rightarrow> string list option" where
  "rx_search re [] = rx_match_here re []"
| "rx_search re (c # cs) =
     (case rx_match_here re (c # cs) of Some gs \<Rightarrow> Some gs | None \<Rightarrow> rx_search re cs)"

definition is_digit :: "char \<Rightarrow> bool" where
  "is_digit c = (48 \<le> (of_char c :: nat) \<and> (of_char c :: nat) \<le> 57)"

text \<open>
  A character of a pattern with the \<^verbatim>\<open>i\<close> flag: the two characters have the same upper
  case, compared by code. Only \<^verbatim>\<open>a\<close> to \<^verbatim>\<open>z\<close> change; no character above 127 has the
  upper case of an ASCII letter in a pattern without the \<^verbatim>\<open>u\<close> flag.
\<close>

definition upper_code :: "char \<Rightarrow> nat" where
  "upper_code c = (if 97 \<le> (of_char c :: nat) \<and> (of_char c :: nat) \<le> 122
                   then (of_char c :: nat) - 32 else of_char c)"

definition ci :: "char \<Rightarrow> char \<Rightarrow> bool" where
  "ci c x = (upper_code x = upper_code c)"

text \<open>\<^verbatim>\<open>/\{[\s\S]*\}/\<close>\<close>

definition brace_re :: "rx_item list" where
  "brace_re = [One (\<lambda>c. c = CHR ''{''), Many0 (\<lambda>c. True), One (\<lambda>c. c = CHR ''}'')]"

text \<open>\<^verbatim>\<open>/retry in ([0-9.]+)s/i\<close>; the capture group is item 9.\<close>

definition retry_re :: "rx_item list" where
  "retry_re = map (\<lambda>c. One (ci c)) ''retry in ''
              @ [Many1 (\<lambda>c. is_digit c \<or> c = CHR ''.''), One (ci (CHR ''s''))]"

section \<open>Extraction of the JSON payload\<close>

text \<open>
  \<^verbatim>\<open>extractJsonFromReply\<close> (route.ts, lines 11 to 19). \<^verbatim>\<open>JSON.parse\<close> is the
  platform's; it is a parameter, \<open>Inl\<close> when it throws. The function returns
  \<^verbatim>\<open>null\<close> when nothing matches and when \<^verbatim>\<open>JSON.parse\<close> throws.
\<close>

definition extractJsonFromReply :: "(string \<Rightarrow> js_error + json) \<Rightarrow> string \<Rightarrow> json" where
  "extractJsonFromReply parse reply =
     (case rx_search brace_re reply of
        None \<Rightarrow> JNull
      | Some m \<Rightarrow> (case parse (concat m) of Inr v \<Rightarrow> v | Inl e \<Rightarrow> JNull))"

section \<open>Digits\<close>

definition digit_val :: "char \<Rightarrow> nat" where
  "digit_val c = (of_char c :: nat) - 48"

definition digits_val :: "string \<Rightarrow> nat" where
  "digits_val ds = foldl (\<lambda>a c. 10 * a + digit_val c) 0 ds"

section \<open>Numbers of the platform\<close>

text \<open>
  A Number of the code is an IEEE 754 double. The model keeps a finite double as the
  real number it denotes, beside the two infinities and \<^verbatim>\<open>NaN\<close>. The two zeros are
  one value: no computation of the code tells them apart, and a wait of \<^verbatim>\<open>-0\<close> is a
  wait of \<^verbatim>\<open>0\<close>. \<open>fl x\<close> is the double nearest to the real \<open>x\<close>, a tie going to the
  even mantissa: 53 bits of mantissa, the quantum \<^verbatim>\<open>2^-1074\<close> of the subnormal
  numbers as the smallest step, and \<^verbatim>\<open>Infinity\<close> from the midpoint above the largest double on.
  An arithmetic operation of the code is the exact operation followed by \<open>fl\<close>.
\<close>

datatype js_number = NaN | NegInfinity | Num real | Infinity

text \<open>The number of binary digits of a natural number.\<close>

function bits :: "nat \<Rightarrow> nat" where
  "bits n = (if n = 0 then 0 else Suc (bits (n div 2)))"
  by pat_completeness auto
termination
  by (relation "measure id") auto

declare bits.simps [simp del]

text \<open>
  The integer part of the binary logarithm of a positive \<open>x\<close>, and the power of two with
  an integer exponent.
\<close>

definition ilog2 :: "real \<Rightarrow> int" where
  "ilog2 x = (if 1 \<le> x then int (bits (nat \<lfloor>x\<rfloor>)) - 1
              else - int (bits (nat (\<lceil>1 / x\<rceil> - 1))))"

definition pow2 :: "int \<Rightarrow> real" where
  "pow2 e = (if 0 \<le> e then 2 ^ nat e else 1 / 2 ^ nat (- e))"

text \<open>The nearest integer, a tie going to the even one.\<close>

definition round_even :: "real \<Rightarrow> int" where
  "round_even x =
     (let f = \<lfloor>x\<rfloor>
      in if x - of_int f < 1 / 2 then f
         else if 1 / 2 < x - of_int f then f + 1
         else if even f then f else f + 1)"

definition fl_pos :: "real \<Rightarrow> js_number" where
  "fl_pos x =
     (if (2 ^ 54 - 1) * 2 ^ 970 \<le> x then Infinity
      else (let e = max (ilog2 x - 52) (- 1074)
            in Num (of_int (round_even (x / pow2 e)) * pow2 e)))"

definition fl :: "real \<Rightarrow> js_number" where
  "fl x = (if x = 0 then Num 0
           else if 0 < x then fl_pos x
           else (case fl_pos (- x) of
                   Num y \<Rightarrow> Num (- y)
                 | Infinity \<Rightarrow> NegInfinity
                 | v \<Rightarrow> v))"

fun num_sign :: "js_number \<Rightarrow> int" where
  "num_sign (Num a) = (if a < 0 then - 1 else if a = 0 then 0 else 1)"
| "num_sign Infinity = 1"
| "num_sign NegInfinity = - 1"
| "num_sign NaN = 0"

text \<open>\<^verbatim>\<open>a * b\<close>, \<^verbatim>\<open>a + b\<close>, \<^verbatim>\<open>Math.floor(a)\<close> and \<^verbatim>\<open>Math.ceil(a)\<close>.\<close>

fun num_times :: "js_number \<Rightarrow> js_number \<Rightarrow> js_number" where
  "num_times (Num a) (Num b) = fl (a * b)"
| "num_times NaN v = NaN"
| "num_times v NaN = NaN"
| "num_times a b =
     (if num_sign a * num_sign b = 0 then NaN
      else if 0 < num_sign a * num_sign b then Infinity else NegInfinity)"

fun num_plus :: "js_number \<Rightarrow> js_number \<Rightarrow> js_number" where
  "num_plus (Num a) (Num b) = fl (a + b)"
| "num_plus NaN v = NaN"
| "num_plus v NaN = NaN"
| "num_plus Infinity NegInfinity = NaN"
| "num_plus NegInfinity Infinity = NaN"
| "num_plus Infinity v = Infinity"
| "num_plus v Infinity = Infinity"
| "num_plus NegInfinity v = NegInfinity"
| "num_plus v NegInfinity = NegInfinity"

fun num_floor :: "js_number \<Rightarrow> js_number" where
  "num_floor (Num a) = Num (of_int \<lfloor>a\<rfloor>)"
| "num_floor v = v"

fun num_ceil :: "js_number \<Rightarrow> js_number" where
  "num_ceil (Num a) = Num (of_int \<lceil>a\<rceil>)"
| "num_ceil v = v"

text \<open>White space that \<^verbatim>\<open>parseInt\<close> skips, among 8-bit characters.\<close>

definition is_js_space :: "char \<Rightarrow> bool" where
  "is_js_space c = ((of_char c :: nat) \<in> {9, 10, 11, 12, 13, 32, 160})"

text \<open>
  \<^verbatim>\<open>parseInt(s, 10)\<close>: leading white space, a sign, then the longest run of digits;
  \<^verbatim>\<open>NaN\<close> when there is no digit, else the double nearest to the integer that the
  digits denote (V8 rounds correctly, whatever the number of digits).
\<close>

definition parseInt10 :: "string \<Rightarrow> js_number" where
  "parseInt10 s =
     (let t = dropWhile is_js_space s;
          neg = (case t of [] \<Rightarrow> False | c # r \<Rightarrow> c = CHR ''-'');
          u = (case t of [] \<Rightarrow> [] | c # r \<Rightarrow> if c = CHR ''-'' \<or> c = CHR ''+'' then r else t);
          ds = takeWhile is_digit u
      in if ds = [] then NaN
         else fl (if neg then - real (digits_val ds) else real (digits_val ds)))"

text \<open>
  \<^verbatim>\<open>parseFloat\<close> on a text of digits and dots, which is what the capture group
  \<^verbatim>\<open>([0-9.]+)\<close> holds: the longest prefix that is a decimal literal (digits, then
  optionally a dot and digits; or a dot and at least one digit); \<^verbatim>\<open>NaN\<close> when there
  is none, else the double nearest to the decimal (V8 rounds correctly, whatever the
  number of digits). Signs, exponents and \<^verbatim>\<open>Infinity\<close> cannot occur in the group.
\<close>

definition parseFloat :: "string \<Rightarrow> js_number" where
  "parseFloat s =
     (let ip = takeWhile is_digit s; r = dropWhile is_digit s
      in case r of
           [] \<Rightarrow> if ip = [] then NaN else fl (real (digits_val ip))
         | c # r' \<Rightarrow>
             if c = CHR ''.'' then
               (let fp = takeWhile is_digit r'
                in if ip = [] \<and> fp = [] then NaN
                   else fl (real (digits_val ip) + real (digits_val fp) / 10 ^ length fp))
             else if ip = [] then NaN else fl (real (digits_val ip)))"

section \<open>A JSON parser of the platform\<close>

text \<open>
  The code is parametric in \<^verbatim>\<open>JSON.parse\<close> (field \<open>JSON_parse\<close> of the platform below).
  For concrete runs, \<open>json_text\<close> is a parser of the JSON grammar of ECMA-404, which
  \<^verbatim>\<open>JSON.parse\<close> accepts: white space, objects, arrays, strings with their escapes,
  numbers, and the three literals. A later member of an object replaces an earlier
  one of the same name. An escape \<^verbatim>\<open>\uXXXX\<close> above \<^verbatim>\<open>\u00FF\<close> has no 8-bit
  character and is refused. The recursion is bounded by a
  counter that starts at the length of the text. This is enough for every text of the
  grammar: entering an array or an object and moving on to its next member cost one
  each, and each is paid for by a bracket, a brace or a comma of the text.
\<close>

definition is_json_ws :: "char \<Rightarrow> bool" where
  "is_json_ws c = ((of_char c :: nat) \<in> {9, 10, 13, 32})"

definition skip_ws :: "string \<Rightarrow> string" where
  "skip_ws s = dropWhile is_json_ws s"

definition hex_val :: "char \<Rightarrow> nat option" where
  "hex_val c =
     (let n = (of_char c :: nat)
      in if 48 \<le> n \<and> n \<le> 57 then Some (n - 48)
         else if 65 \<le> n \<and> n \<le> 70 then Some (n - 55)
         else if 97 \<le> n \<and> n \<le> 102 then Some (n - 87)
         else None)"

definition hex4 :: "char \<Rightarrow> char \<Rightarrow> char \<Rightarrow> char \<Rightarrow> nat option" where
  "hex4 a b c d =
     (case (hex_val a, hex_val b, hex_val c, hex_val d) of
        (Some w, Some x, Some y, Some z) \<Rightarrow> Some (4096 * w + 256 * x + 16 * y + z)
      | _ \<Rightarrow> None)"

definition escape_char :: "char \<Rightarrow> char option" where
  "escape_char e =
     (if e = CHR 0x22 then Some (CHR 0x22)
      else if e = CHR 0x5C then Some (CHR 0x5C)
      else if e = CHR ''/'' then Some (CHR ''/'')
      else if e = CHR ''b'' then Some (CHR 0x08)
      else if e = CHR ''f'' then Some (CHR 0x0C)
      else if e = CHR ''n'' then Some (CHR 0x0A)
      else if e = CHR ''r'' then Some (CHR 0x0D)
      else if e = CHR ''t'' then Some (CHR 0x09)
      else None)"

definition push_char :: "char \<Rightarrow> (string \<times> string) option \<Rightarrow> (string \<times> string) option" where
  "push_char c r = map_option (\<lambda>(t, rest). (c # t, rest)) r"

text \<open>The characters of a string after its opening quote, and the text after its closing quote.\<close>

fun json_string :: "string \<Rightarrow> (string \<times> string) option" where
  "json_string [] = None"
| "json_string (c # cs) =
     (if c = CHR 0x22 then Some ([], cs)
      else if c = CHR 0x5C then
        (case cs of
           [] \<Rightarrow> None
         | e # r \<Rightarrow>
             if e = CHR ''u'' then
               (case r of
                  a # b # x # y # r' \<Rightarrow>
                    (case hex4 a b x y of
                       None \<Rightarrow> None
                     | Some n \<Rightarrow> if n < 256 then push_char (char_of n) (json_string r') else None)
                | _ \<Rightarrow> None)
             else (case escape_char e of
                     None \<Rightarrow> None
                   | Some x \<Rightarrow> push_char x (json_string r)))
      else if (of_char c :: nat) < 32 then None
      else push_char c (json_string cs))"

text \<open>A number: \<^verbatim>\<open>-? (0 | [1-9][0-9]*) (.[0-9]+)? ([eE][+-]?[0-9]+)?\<close>.\<close>

definition json_number :: "string \<Rightarrow> (real \<times> string) option" where
  "json_number s =
     (let neg = (case s of [] \<Rightarrow> False | c # r \<Rightarrow> c = CHR ''-'');
          s1 = (if neg then tl s else s);
          ip = takeWhile is_digit s1;
          s2 = dropWhile is_digit s1;
          dot = (case s2 of [] \<Rightarrow> False | c # r \<Rightarrow> c = CHR ''.'');
          fp = (if dot then takeWhile is_digit (tl s2) else []);
          s3 = (if dot then dropWhile is_digit (tl s2) else s2);
          ex = (case s3 of [] \<Rightarrow> False | c # r \<Rightarrow> c = CHR ''e'' \<or> c = CHR ''E'');
          s4 = (if ex then tl s3 else s3);
          eneg = (case s4 of [] \<Rightarrow> False | c # r \<Rightarrow> ex \<and> c = CHR ''-'');
          s5 = (case s4 of [] \<Rightarrow> [] | c # r \<Rightarrow> if ex \<and> (c = CHR ''-'' \<or> c = CHR ''+'') then r else s4);
          ed = (if ex then takeWhile is_digit s5 else []);
          s6 = (if ex then dropWhile is_digit s5 else s3);
          m = real (digits_val ip) + real (digits_val fp) / 10 ^ length fp;
          x = (if eneg then m / 10 ^ digits_val ed else m * 10 ^ digits_val ed)
      in if ip = [] \<or> (1 < length ip \<and> hd ip = CHR ''0'') \<or> (dot \<and> fp = []) \<or> (ex \<and> ed = [])
         then None
         else Some (if neg then - x else x, s6))"

fun obj_put :: "(string \<times> json) list \<Rightarrow> string \<Rightarrow> json \<Rightarrow> (string \<times> json) list" where
  "obj_put [] k v = [(k, v)]"
| "obj_put ((k', v') # kvs) k v = (if k' = k then (k, v) # kvs else (k', v') # obj_put kvs k v)"

definition strip_prefix :: "string \<Rightarrow> string \<Rightarrow> string option" where
  "strip_prefix w s = (if take (length w) s = w then Some (drop (length w) s) else None)"

fun json_value :: "nat \<Rightarrow> string \<Rightarrow> (json \<times> string) option"
  and json_elements :: "nat \<Rightarrow> string \<Rightarrow> (json list \<times> string) option"
  and json_members :: "nat \<Rightarrow> (string \<times> json) list \<Rightarrow> string \<Rightarrow> ((string \<times> json) list \<times> string) option"
where
  "json_value 0 s = None"
| "json_value (Suc n) s =
     (case skip_ws s of
        [] \<Rightarrow> None
      | c # r \<Rightarrow>
          if c = CHR ''{'' then
            (case skip_ws r of
               [] \<Rightarrow> None
             | d # r' \<Rightarrow> if d = CHR ''}'' then Some (JObject [], r')
                        else map_option (\<lambda>(kvs, rest). (JObject kvs, rest)) (json_members n [] r))
          else if c = CHR ''['' then
            (case skip_ws r of
               [] \<Rightarrow> None
             | d # r' \<Rightarrow> if d = CHR '']'' then Some (JArray [], r')
                        else map_option (\<lambda>(vs, rest). (JArray vs, rest)) (json_elements n r))
          else if c = CHR 0x22 then map_option (\<lambda>(t, rest). (JString t, rest)) (json_string r)
          else if c = CHR ''t'' then map_option (\<lambda>rest. (JBool True, rest)) (strip_prefix ''true'' (c # r))
          else if c = CHR ''f'' then map_option (\<lambda>rest. (JBool False, rest)) (strip_prefix ''false'' (c # r))
          else if c = CHR ''n'' then map_option (\<lambda>rest. (JNull, rest)) (strip_prefix ''null'' (c # r))
          else map_option (\<lambda>(x, rest). (JNumber x, rest)) (json_number (c # r)))"
| "json_elements 0 s = None"
| "json_elements (Suc n) s =
     (case json_value n s of
        None \<Rightarrow> None
      | Some (v, r) \<Rightarrow>
          (case skip_ws r of
             [] \<Rightarrow> None
           | d # r' \<Rightarrow>
               if d = CHR '','' then map_option (\<lambda>(vs, rest). (v # vs, rest)) (json_elements n r')
               else if d = CHR '']'' then Some ([v], r')
               else None))"
| "json_members 0 acc s = None"
| "json_members (Suc n) acc s =
     (case skip_ws s of
        [] \<Rightarrow> None
      | q # r \<Rightarrow>
          if q \<noteq> CHR 0x22 then None
          else (case json_string r of
                  None \<Rightarrow> None
                | Some (k, r1) \<Rightarrow>
                    (case skip_ws r1 of
                       [] \<Rightarrow> None
                     | colon # r2 \<Rightarrow>
                         if colon \<noteq> CHR '':'' then None
                         else (case json_value n r2 of
                                 None \<Rightarrow> None
                               | Some (v, r3) \<Rightarrow>
                                   (case skip_ws r3 of
                                      [] \<Rightarrow> None
                                    | d # r4 \<Rightarrow>
                                        if d = CHR '','' then json_members n (obj_put acc k v) r4
                                        else if d = CHR ''}'' then Some (obj_put acc k v, r4)
                                        else None)))))"

definition json_text :: "string \<Rightarrow> json option" where
  "json_text s =
     (case json_value (length s) s of
        None \<Rightarrow> None
      | Some (v, rest) \<Rightarrow> if skip_ws rest = [] then Some v else None)"

text \<open>
  \<^verbatim>\<open>JSON.parse\<close> with this grammar; \<open>wording\<close> gives the message of the
  \<^verbatim>\<open>SyntaxError\<close> for a text that is not JSON, which differs between engines.
\<close>

definition std_JSON_parse :: "(string \<Rightarrow> string) \<Rightarrow> string \<Rightarrow> js_error + json" where
  "std_JSON_parse wording s =
     (case json_text s of
        None \<Rightarrow> Inl (JsError ''SyntaxError'' (wording s))
      | Some v \<Rightarrow> Inr v)"

section \<open>Transport: \<^verbatim>\<open>callAi\<close>\<close>

definition DEFAULT_TIMEOUT :: int where "DEFAULT_TIMEOUT = 10000"
definition MAX_RETRIES :: nat where "MAX_RETRIES = 3"
definition BASE_DELAY :: real where "BASE_DELAY = 1000"

text \<open>
  What the code sees of a response: \<^verbatim>\<open>res.status\<close>,
  \<^verbatim>\<open>res.headers.get("retry-after")\<close> (\<open>None\<close> is \<^verbatim>\<open>null\<close>) and \<^verbatim>\<open>await res.text()\<close>.
\<close>

record fetch_response =
  res_status :: nat
  res_retry_after :: "string option"
  res_text :: string

text \<open>
  One \<^verbatim>\<open>await fetch(...)\<close> followed by \<^verbatim>\<open>await res.text()\<close> either gives a response
  or throws. The timer of \<open>DEFAULT_TIMEOUT\<close> milliseconds aborts the call through the
  \<^verbatim>\<open>AbortController\<close>; \<^verbatim>\<open>fetch\<close> then throws an error named \<^verbatim>\<open>AbortError\<close>.
\<close>

datatype fetch_outcome = Responds fetch_response | Throws js_error

text \<open>
  Everything outside the code: \<^verbatim>\<open>JSON.parse\<close> (\<open>Inl\<close> when it throws),
  the outcome of the \<open>k\<close>-th \<^verbatim>\<open>fetch\<close> of a call of \<^verbatim>\<open>callAi\<close> for a URL and the
  value given to \<^verbatim>\<open>JSON.stringify\<close> as body, the value of \<^verbatim>\<open>Math.random()\<close> drawn
  during attempt \<open>k\<close> (every path of the loop body draws at most one), and the
  variables of \<^verbatim>\<open>process.env\<close>.
\<close>

record platform =
  JSON_parse :: "string \<Rightarrow> js_error + json"
  fetch :: "string \<Rightarrow> json \<Rightarrow> nat \<Rightarrow> fetch_outcome"
  Math_random :: "nat \<Rightarrow> real"
  USE_MOCK_AI :: "string option"
  GEMINI_API_KEY :: "string option"
  GOOGLE_GEMINI_API_KEY :: "string option"

definition res_ok :: "fetch_response \<Rightarrow> bool" where
  "res_ok res = (200 \<le> res_status res \<and> res_status res \<le> 299)"

text \<open>
  \<^verbatim>\<open>BASE_DELAY * 2 ** attempt\<close> and \<^verbatim>\<open>Math.floor(Math.random() * 300)\<close>, where \<open>rnd\<close>
  is the double that \<^verbatim>\<open>Math.random()\<close> gave.
\<close>

definition backoff :: "nat \<Rightarrow> js_number" where
  "backoff attempt = num_times (Num BASE_DELAY) (fl (2 ^ attempt))"

definition jitter :: "real \<Rightarrow> js_number" where
  "jitter rnd = num_floor (num_times (Num rnd) (Num 300))"

text \<open>Lines 50 to 61: the wait before the retry of a 429 or a 503.\<close>

definition retry_wait :: "real \<Rightarrow> nat \<Rightarrow> fetch_response \<Rightarrow> js_number" where
  "retry_wait rnd attempt res =
     (let retryAfter = res_retry_after res;
          waitMs0 = num_plus (backoff attempt) (jitter rnd);
          waitMs1 = (case retryAfter of
                       None \<Rightarrow> waitMs0
                     | Some ra \<Rightarrow>
                         if ra = [] then waitMs0
                         else if parseInt10 ra = NaN then waitMs0
                         else num_times (parseInt10 ra) (Num 1000));
          secsMatch = rx_search retry_re (res_text res)
      in case secsMatch of
           None \<Rightarrow> waitMs1
         | Some m \<Rightarrow>
             if parseFloat (m ! 9) = NaN then waitMs1
             else num_ceil (num_times (parseFloat (m ! 9)) (Num 1000)))"

text \<open>
  How one pass through the loop body ends: \<^verbatim>\<open>return text\<close>, \<^verbatim>\<open>await sleep(ms); continue\<close>,
  or a \<^verbatim>\<open>throw\<close> that leaves \<^verbatim>\<open>callAi\<close>.
\<close>

datatype attempt_end = Return string | Continue js_number | Throw js_error

text \<open>
  The \<^verbatim>\<open>try\<close> block, lines 28 to 67; \<open>Inl\<close> is an error thrown inside it, which the
  \<^verbatim>\<open>catch\<close> of line 68 receives. The \<^verbatim>\<open>throw new Error(`AI API error ...`)\<close> of
  line 67 stands inside the \<^verbatim>\<open>try\<close> block.
\<close>

definition try_block :: "platform \<Rightarrow> string \<Rightarrow> json \<Rightarrow> nat \<Rightarrow> js_error + attempt_end" where
  "try_block p url body attempt =
     (case fetch p url body attempt of
        Throws err \<Rightarrow> Inl err
      | Responds res \<Rightarrow>
          if res_ok res then Inr (Return (res_text res))
          else if (res_status res = 429 \<or> res_status res = 503) \<and> attempt < MAX_RETRIES
          then Inr (Continue (retry_wait (Math_random p attempt) attempt res))
          else Inl (JsError ''Error''
                 (''AI API error '' @ show_nat (res_status res) @ '': '' @ res_text res)))"

text \<open>The \<^verbatim>\<open>catch\<close> block, lines 68 to 82.\<close>

definition catch_block :: "platform \<Rightarrow> nat \<Rightarrow> js_error \<Rightarrow> attempt_end" where
  "catch_block p attempt err =
     (if err_name err = ''AbortError'' then
        (if attempt < MAX_RETRIES then Continue (backoff attempt)
         else Throw (JsError ''Error'' ''AI request timed out''))
      else if attempt < MAX_RETRIES
      then Continue (num_plus (backoff attempt) (jitter (Math_random p attempt)))
      else Throw err)"

definition loop_body :: "platform \<Rightarrow> string \<Rightarrow> json \<Rightarrow> nat \<Rightarrow> attempt_end" where
  "loop_body p url body attempt =
     (case try_block p url body attempt of
        Inl err \<Rightarrow> catch_block p attempt err
      | Inr e \<Rightarrow> e)"

text \<open>
  What a call of \<^verbatim>\<open>callAi\<close> did: its result (\<open>Inl\<close> the error it threw), the
  number of calls of \<^verbatim>\<open>fetch\<close>, and the arguments of its calls of \<^verbatim>\<open>sleep\<close> in order.
\<close>

record transport_out =
  outcome :: "js_error + string"
  fetches :: nat
  sleeps :: "js_number list"

text \<open>The \<^verbatim>\<open>for\<close> loop of line 24, from a given attempt on, and line 85 after it.\<close>

function callAi_from :: "platform \<Rightarrow> string \<Rightarrow> json \<Rightarrow> nat \<Rightarrow> nat \<Rightarrow> js_number list \<Rightarrow> transport_out" where
  "callAi_from p url body attempt n zs =
     (if attempt \<le> MAX_RETRIES then
        (case loop_body p url body attempt of
           Return t \<Rightarrow> \<lparr>outcome = Inr t, fetches = Suc n, sleeps = zs\<rparr>
         | Throw err \<Rightarrow> \<lparr>outcome = Inl err, fetches = Suc n, sleeps = zs\<rparr>
         | Continue ms \<Rightarrow> callAi_from p url body (Suc attempt) (Suc n) (zs @ [ms]))
      else \<lparr>outcome = Inl (JsError ''Error'' ''AI request failed after retries''),
            fetches = n, sleeps = zs\<rparr>)"
  by pat_completeness auto
termination
  by (relation "measure (\<lambda>(p, url, body, attempt, n, zs). Suc MAX_RETRIES - attempt)") auto

declare callAi_from.simps [simp del]

definition request_body :: "string \<Rightarrow> json" where
  "request_body fullPrompt =
     JObject [(''contents'',
       JArray [JObject [(''role'', JString ''user''),
                        (''parts'', JArray [JObject [(''text'', JString fullPrompt)]])]])]"

text \<open>Line 22: the URL, with the key as query parameter.\<close>

definition endpoint :: "string \<Rightarrow> string" where
  "endpoint apiKey =
     ''https://generativelanguage.googleapis.com/v1/models/gemini-2.5-flash:generateContent?key='' @ apiKey"

definition callAi :: "platform \<Rightarrow> string \<Rightarrow> string \<Rightarrow> transport_out" where
  "callAi p fullPrompt apiKey = callAi_from p (endpoint apiKey) (request_body fullPrompt) 0 0 []"

section \<open>Orchestrator: \<^verbatim>\<open>POST\<close>\<close>

text \<open>\<^verbatim>\<open>NextResponse.json(value, { status })\<close>; the status is 200 when none is given.\<close>

record http_response =
  status :: nat
  payload :: json

text \<open>
  What a call of the handler did: its response, and what its call of \<^verbatim>\<open>callAi\<close> did,
  \<open>None\<close> when the handler never called it. The lines written by
  \<^verbatim>\<open>console.error\<close> are not modelled.
\<close>

record handled =
  response :: http_response
  transport :: "transport_out option"

definition systemPrompt :: string where
  "systemPrompt = ''\<newline>You are a senior frontend engineer specializing in forms, UX, and accessibility.\<newline>\<newline>Analyze the provided form definition and return STRICT JSON with:\<newline>- validationRules: array of strings\<newline>- accessibility: array of strings\<newline>- uxSuggestions: array of strings\<newline>- edgeCases: array of strings\<newline>\<newline>Do NOT include explanations or markdown.\<newline>Return ONLY valid JSON.\<newline>''"

definition canned :: json where
  "canned = JObject
     [(''validationRules'', JArray [JString ''email: required, must be a valid email'']),
      (''accessibility'', JArray [JString ''Ensure all form fields have associated labels'']),
      (''uxSuggestions'', JArray [JString ''Show inline validation messages as user types'']),
      (''edgeCases'', JArray [JString ''Empty optional fields with default values''])]"

text \<open>The \<^verbatim>\<open>catch\<close> of the handler, lines 151 to 160.\<close>

definition catch_response :: "js_error \<Rightarrow> http_response" where
  "catch_response error =
     (if str_includes (err_message error) ''timed out'' then
        \<lparr>status = 504, payload = JObject [(''error'', JString ''AI request timed out'')]\<rparr>
      else if str_includes (err_message error) ''AI API error'' then
        \<lparr>status = 502, payload = JObject [(''error'', JString ''AI API error''),
                                          (''details'', JString (err_message error))]\<rparr>
      else \<lparr>status = 500, payload = JObject [(''error'', JString ''Server error'')]\<rparr>)"

text \<open>The text of a value whose \<^verbatim>\<open>typeof\<close> is \<^verbatim>\<open>"string"\<close>.\<close>

fun str_of :: "json option \<Rightarrow> string" where
  "str_of (Some (JString s)) = s"
| "str_of v = []"

text \<open>
  Lines 136 to 142: \<^verbatim>\<open>apiJson?.candidates?.[0]?.content?.parts?.[0]?.text ?? text\<close>, and
  \<^verbatim>\<open>text\<close> when \<^verbatim>\<open>JSON.parse(text)\<close> throws.
\<close>

definition parsedReply_of :: "platform \<Rightarrow> string \<Rightarrow> json" where
  "parsedReply_of p text =
     (case JSON_parse p text of
        Inl e \<Rightarrow> JString text
      | Inr apiJson \<Rightarrow>
          nullish_or
            (opt_prop (opt_index (opt_prop (opt_prop (opt_index (opt_prop (Some apiJson)
               ''candidates'') 0) ''content'') ''parts'') 0) ''text'')
            (JString text))"

text \<open>
  Lines 144 to 150. \<^verbatim>\<open>extractJsonFromReply(parsedReply)\<close> calls \<^verbatim>\<open>reply.match\<close>; on a
  value that is not a string this throws a \<^verbatim>\<open>TypeError\<close> (the message is V8's), which
  the \<^verbatim>\<open>catch\<close> of the handler receives.
\<close>

definition interpret_reply :: "platform \<Rightarrow> json \<Rightarrow> http_response" where
  "interpret_reply p parsedReply =
     (case parsedReply of
        JString reply \<Rightarrow>
          (let extracted = extractJsonFromReply (JSON_parse p) reply
           in if \<not> truthy (Some extracted) then
                \<lparr>status = 500, payload = JObject [(''error'', JString ''Invalid AI response format''),
                                                  (''raw'', parsedReply)]\<rparr>
              else \<lparr>status = 200, payload = extracted\<rparr>)
      | _ \<Rightarrow> catch_response (JsError ''TypeError'' ''reply.match is not a function''))"

text \<open>Line 100 and line 112: the two reads of \<^verbatim>\<open>process.env\<close>.\<close>

definition useMock :: "platform \<Rightarrow> bool" where
  "useMock p = (USE_MOCK_AI p = Some ''1'' \<or> USE_MOCK_AI p = Some ''true'')"

definition apiKey :: "platform \<Rightarrow> string option" where
  "apiKey p = (case GEMINI_API_KEY p of Some k \<Rightarrow> Some k | None \<Rightarrow> GOOGLE_GEMINI_API_KEY p)"

definition fullPrompt :: "string \<Rightarrow> string" where
  "fullPrompt prompt = systemPrompt @ ''\<newline>Form:\<newline>'' @ prompt"

definition bad_request :: http_response where
  "bad_request = \<lparr>status = 400, payload = JObject
     [(''error'', JString ''Missing or invalid 'prompt' in request body'')]\<rparr>"

definition misconfigured :: http_response where
  "misconfigured = \<lparr>status = 500, payload = JObject [(''error'', JString ''Server misconfiguration'')]\<rparr>"

text \<open>
  \<^verbatim>\<open>POST\<close>, lines 88 to 161. \<^verbatim>\<open>await req.json()\<close> reads the body text and parses it
  with the platform's JSON parser; \<open>req_text\<close> is that text. \<^verbatim>\<open>!apiKey\<close> holds of
  \<^verbatim>\<open>undefined\<close> and of the empty string.
\<close>

definition POST :: "platform \<Rightarrow> string \<Rightarrow> handled" where
  "POST p req_text =
     (case JSON_parse p req_text of
        Inl error \<Rightarrow> \<lparr>response = catch_response error, transport = None\<rparr>
      | Inr body \<Rightarrow>
          (let prompt = opt_prop (Some body) ''prompt'' in
           if \<not> truthy prompt \<or> js_typeof prompt \<noteq> ''string'' then
             \<lparr>response = bad_request, transport = None\<rparr>
           else if useMock p then
             \<lparr>response = \<lparr>status = 200, payload = canned\<rparr>, transport = None\<rparr>
           else
             (case apiKey p of
                None \<Rightarrow> \<lparr>response = misconfigured, transport = None\<rparr>
              | Some key \<Rightarrow>
                  if key = [] then \<lparr>response = misconfigured, transport = None\<rparr>
                  else
                    (let t = callAi p (fullPrompt (str_of prompt)) key
                     in case outcome t of
                          Inl error \<Rightarrow> \<lparr>response = catch_response error, transport = Some t\<rparr>
                        | Inr text \<Rightarrow>
                            \<lparr>response = interpret_reply p (parsedReply_of p text),
                             transport = Some t\<rparr>))))"

section \<open>Notions of the specification\<close>

text \<open>An attempt got a 2xx response.\<close>

fun got_2xx :: "fetch_outcome \<Rightarrow> bool" where
  "got_2xx (Responds res) = res_ok res"
| "got_2xx (Throws err) = False"

text \<open>
  The error that an attempt without a 2xx response raises when it is not retried: the
  status and the body text of its response, the time-out, or what \<^verbatim>\<open>fetch\<close> threw.
\<close>

fun final_error :: "fetch_outcome \<Rightarrow> js_error" where
  "final_error (Responds res) =
     JsError ''Error'' (''AI API error '' @ show_nat (res_status res) @ '': '' @ res_text res)"
| "final_error (Throws err) =
     (if err_name err = ''AbortError'' then JsError ''Error'' ''AI request timed out'' else err)"

text \<open>
  The specification's extraction: the substring from the first \<^verbatim>\<open>{\<close> to the last
  \<^verbatim>\<open>}\<close>, both included, when the first \<^verbatim>\<open>{\<close> stands before the last \<^verbatim>\<open>}\<close>.
\<close>

definition first_index_of :: "char \<Rightarrow> string \<Rightarrow> nat option" where
  "first_index_of c s =
     (if c \<in> set s then Some (length (takeWhile (\<lambda>x. x \<noteq> c) s)) else None)"

definition last_index_of :: "char \<Rightarrow> string \<Rightarrow> nat option" where
  "last_index_of c s =
     (if c \<in> set s then Some (length s - 1 - length (takeWhile (\<lambda>x. x \<noteq> c) (rev s)))
      else None)"

definition first_to_last_brace :: "string \<Rightarrow> string option" where
  "first_to_last_brace s =
     (case (first_index_of (CHR ''{'') s, last_index_of (CHR ''}'') s) of
        (Some i, Some j) \<Rightarrow> if i < j then Some (take (j + 1 - i) (drop i s)) else None
      | _ \<Rightarrow> None)"

text \<open>
  The seconds of the hint \<^verbatim>\<open>retry in <seconds>s\<close> of a body text, and the seconds of
  a \<^verbatim>\<open>Retry-After\<close> header, as lines 52 to 60 read them; \<open>None\<close> when there is no
  hint, no header, or no number in it.
\<close>

definition hint_seconds :: "string \<Rightarrow> js_number option" where
  "hint_seconds text =
     (case rx_search retry_re text of
        None \<Rightarrow> None
      | Some m \<Rightarrow> if parseFloat (m ! 9) = NaN then None else Some (parseFloat (m ! 9)))"

definition header_seconds :: "string option \<Rightarrow> js_number option" where
  "header_seconds retryAfter =
     (case retryAfter of
        None \<Rightarrow> None
      | Some ra \<Rightarrow> if ra = [] \<or> parseInt10 ra = NaN then None else Some (parseInt10 ra))"


text \<open>
  A request that the handler forwards to \<^verbatim>\<open>callAi\<close>: its body is JSON with a non-empty
  string \<open>prompt\<close>, mock mode is off, and \<open>key\<close> is the configured key.
\<close>

definition forwarded :: "platform \<Rightarrow> string \<Rightarrow> string \<Rightarrow> string \<Rightarrow> bool" where
  "forwarded p req_text prompt key =
     ((case JSON_parse p req_text of
         Inl e \<Rightarrow> False
       | Inr body \<Rightarrow> opt_prop (Some body) ''prompt'' = Some (JString prompt))
      \<and> prompt \<noteq> [] \<and> \<not> useMock p \<and> apiKey p = Some key \<and> key \<noteq> [])"

section \<open>Platforms for concrete runs\<close>

text \<open>
  A platform whose \<open>k\<close>-th \<^verbatim>\<open>fetch\<close> ends as \<open>script k\<close> says, with the JSON parser
  above, \<^verbatim>\<open>Math.random()\<close> always one half, mock mode off and a key configured.
\<close>

definition scripted :: "(nat \<Rightarrow> fetch_outcome) \<Rightarrow> platform" where
  "scripted script =
     \<lparr>JSON_parse = std_JSON_parse (\<lambda>s. ''Unexpected end of JSON input''),
      fetch = (\<lambda>url body k. script k),
      Math_random = (\<lambda>k. 1 / 2),
      USE_MOCK_AI = None,
      GEMINI_API_KEY = Some ''secret'',
      GOOGLE_GEMINI_API_KEY = None\<rparr>"

definition reply :: "nat \<Rightarrow> string \<Rightarrow> fetch_outcome" where
  "reply st t = Responds \<lparr>res_status = st, res_retry_after = None, res_text = t\<rparr>"

definition aborted :: fetch_outcome where
  "aborted = Throws (JsError ''AbortError'' ''This operation was aborted'')"

definition always :: "fetch_outcome \<Rightarrow> nat \<Rightarrow> fetch_outcome" where
  "always x k = x"

text \<open>503, 503, then 200.\<close>

definition busy_twice :: "nat \<Rightarrow> fetch_outcome" where
  "busy_twice k = (if k < 2 then reply 503 ''busy'' else reply 200 ''fine'')"

text \<open>403, then 200.\<close>

definition forbidden_once :: "nat \<Rightarrow> fetch_outcome" where
  "forbidden_once k = (if k < 1 then reply 403 ''Forbidden'' else reply 200 ''{}'')"

text \<open>The same platform in mock mode.\<close>

definition mocked :: platform where
  "mocked = (scripted (always aborted))\<lparr>USE_MOCK_AI := Some ''true''\<rparr>"

text \<open>
  An engine whose \<^verbatim>\<open>SyntaxError\<close> quotes the text, as V8 does: for the body
  \<^verbatim>\<open>timed out\<close> its message is the one below.
\<close>

definition quoting :: platform where
  "quoting = (scripted (always aborted))
     \<lparr>JSON_parse := std_JSON_parse (\<lambda>s. ''Unexpected token 'i', \"timed out\" is not valid JSON'')\<rparr>"


text \<open>
  The envelope of the generation endpoint around a reply text that needs no escaping,
  and a 200 response that carries it.
\<close>

definition envelope :: "string \<Rightarrow> string" where
  "envelope t = ''{\"candidates\":[{\"content\":{\"parts\":[{\"text\":\"'' @ t @ ''\"}]}}]}''"

definition answers :: "string \<Rightarrow> nat \<Rightarrow> fetch_outcome" where
  "answers t = always (reply 200 (envelope t))"

section \<open>The brace pattern takes the first opening to the last closing brace\<close>

lemma concat_cons_first: "concat (cons_first c gs) = c # concat gs"
  by (cases gs) simp_all

lemma run_close_none:
  "CHR ''}'' \<notin> set t \<Longrightarrow> rx_match_here [Many0 (\<lambda>c. True), One (\<lambda>c. c = CHR ''}'')] t = None"
  by (induction t) auto

lemma run_close_last:
  "CHR ''}'' \<notin> set post \<Longrightarrow>
   rx_match_here [Many0 (\<lambda>c. True), One (\<lambda>c. c = CHR ''}'')] (mid @ CHR ''}'' # post)
     = Some [mid, ''}'']"
  by (induction mid) (auto simp: run_close_none)

lemma brace_here_none:
  "CHR ''}'' \<notin> set t \<Longrightarrow> rx_match_here brace_re t = None"
  by (cases t) (auto simp: brace_re_def run_close_none)

lemma brace_search_none:
  "CHR ''}'' \<notin> set t \<Longrightarrow> rx_search brace_re t = None"
  by (induction t) (auto simp: brace_here_none)

lemma brace_search_skip:
  "CHR ''{'' \<notin> set pre \<Longrightarrow> rx_search brace_re (pre @ CHR ''{'' # u) = rx_search brace_re (CHR ''{'' # u)"
  by (induction pre) (auto simp: brace_re_def)

lemma brace_search_no_open:
  "CHR ''{'' \<notin> set s \<Longrightarrow> rx_search brace_re s = None"
  by (induction s) (auto simp: brace_re_def)

lemma brace_search_found:
  assumes "CHR ''{'' \<notin> set pre" and "CHR ''}'' \<notin> set post"
  shows "rx_search brace_re (pre @ CHR ''{'' # mid @ CHR ''}'' # post) = Some [''{'', mid, ''}'']"
proof -
  have "rx_match_here brace_re (CHR ''{'' # mid @ CHR ''}'' # post) = Some [''{'', mid, ''}'']"
    using assms(2) by (simp add: brace_re_def run_close_last)
  then have "rx_search brace_re (CHR ''{'' # mid @ CHR ''}'' # post) = Some [''{'', mid, ''}'']"
    by simp
  with assms(1) show ?thesis by (simp add: brace_search_skip)
qed

lemma takeWhile_upto_first:
  "c \<notin> set pre \<Longrightarrow> takeWhile (\<lambda>x. x \<noteq> c) (pre @ c # u) = pre"
  by (induction pre) auto

lemma takeWhile_rev_last:
  "c \<notin> set post \<Longrightarrow> takeWhile (\<lambda>x. x \<noteq> c) (rev (xs @ c # post)) = rev post"
  using takeWhile_upto_first [of c "rev post" "rev xs"] by simp

lemma takeWhile_stops:
  "c \<in> set xs \<Longrightarrow> length (takeWhile (\<lambda>x. x \<noteq> c) xs) < length xs"
  by (induction xs) auto

lemma takeWhile_past:
  "c \<notin> set xs \<Longrightarrow> takeWhile (\<lambda>x. x \<noteq> c) (xs @ ys) = xs @ takeWhile (\<lambda>x. x \<noteq> c) ys"
  by (induction xs) auto

lemma takeWhile_rev_none:
  "c \<notin> set u \<Longrightarrow> d \<noteq> c \<Longrightarrow>
   takeWhile (\<lambda>x. x \<noteq> c) (rev (pre @ d # u)) = rev u @ d # takeWhile (\<lambda>x. x \<noteq> c) (rev pre)"
  using takeWhile_past [of c "rev u @ [d]" "rev pre"] by simp

lemma spec_found:
  assumes "CHR ''{'' \<notin> set pre" and "CHR ''}'' \<notin> set post"
  shows "first_to_last_brace (pre @ CHR ''{'' # mid @ CHR ''}'' # post) = Some (CHR ''{'' # mid @ ''}'')"
proof -
  let ?s = "pre @ CHR ''{'' # mid @ CHR ''}'' # post"
  have i: "first_index_of (CHR ''{'') ?s = Some (length pre)"
    using assms(1) by (simp add: first_index_of_def takeWhile_upto_first)
  have "takeWhile (\<lambda>x. x \<noteq> CHR ''}'') (rev ((pre @ CHR ''{'' # mid) @ CHR ''}'' # post)) = rev post"
    using assms(2) by (rule takeWhile_rev_last)
  then have j: "last_index_of (CHR ''}'') ?s = Some (length pre + length mid + 1)"
    by (simp add: last_index_of_def)
  show ?thesis
    unfolding first_to_last_brace_def i j by simp
qed

lemma spec_no_open: "CHR ''{'' \<notin> set s \<Longrightarrow> first_to_last_brace s = None"
  by (simp add: first_to_last_brace_def first_index_of_def)

lemma spec_no_close_after:
  assumes "CHR ''{'' \<notin> set pre" and "CHR ''}'' \<notin> set u"
  shows "first_to_last_brace (pre @ CHR ''{'' # u) = None"
proof (cases "CHR ''}'' \<in> set pre")
  case False
  with assms show ?thesis
    by (simp add: first_to_last_brace_def last_index_of_def split: option.splits)
next
  case True
  let ?s = "pre @ CHR ''{'' # u"
  let ?k = "length (takeWhile (\<lambda>x. x \<noteq> CHR ''}'') (rev pre))"
  have i: "first_index_of (CHR ''{'') ?s = Some (length pre)"
    using assms(1) by (simp add: first_index_of_def takeWhile_upto_first)
  have tw: "takeWhile (\<lambda>x. x \<noteq> CHR ''}'') (rev ?s)
      = rev u @ CHR ''{'' # takeWhile (\<lambda>x. x \<noteq> CHR ''}'') (rev pre)"
    using assms(2) by (intro takeWhile_rev_none) simp_all
  have "CHR ''}'' \<in> set (rev pre)" using True by simp
  then have "?k < length (rev pre)"
    by (rule takeWhile_stops)
  then have k: "?k < length pre" by simp
  have j: "last_index_of (CHR ''}'') ?s = Some (length pre - 1 - ?k)"
    using True unfolding last_index_of_def tw by simp
  show ?thesis
    unfolding first_to_last_brace_def i j using k by simp
qed

lemma brace_search_no_close_after:
  assumes "CHR ''{'' \<notin> set pre" and "CHR ''}'' \<notin> set u"
  shows "rx_search brace_re (pre @ CHR ''{'' # u) = None"
proof -
  have "rx_search brace_re (CHR ''{'' # u) = None"
    using assms(2) by (simp add: brace_here_none brace_search_none)
  with assms(1) show ?thesis by (simp add: brace_search_skip)
qed

lemma brace_search_spec: "map_option concat (rx_search brace_re s) = first_to_last_brace s"
proof (cases "CHR ''{'' \<in> set s")
  case False
  then show ?thesis by (simp add: brace_search_no_open spec_no_open)
next
  case True
  then obtain pre u where s: "s = pre @ CHR ''{'' # u" and pre: "CHR ''{'' \<notin> set pre"
    by (auto dest: split_list_first)
  show ?thesis
  proof (cases "CHR ''}'' \<in> set u")
    case False
    with pre show ?thesis
      unfolding s by (simp add: brace_search_no_close_after spec_no_close_after)
  next
    case True
    then obtain mid post where u: "u = mid @ CHR ''}'' # post" and post: "CHR ''}'' \<notin> set post"
      by (auto dest: split_list_last)
    from pre post show ?thesis
      unfolding s u by (simp add: brace_search_found spec_found)
  qed
qed

section \<open>The matcher and the substring test\<close>

lemma cons_first_length: "gs \<noteq> [] \<Longrightarrow> length (cons_first c gs) = length gs"
  by (cases gs) simp_all

lemma rx_match_here_pieces:
  "rx_match_here re s = Some gs \<Longrightarrow> length gs = length re"
proof (induction re s arbitrary: gs rule: rx_match_here.induct)
  case (5 p r c cs)
  show ?case
  proof (cases "if p c then rx_match_here (Many0 p # r) cs else None")
    case None
    with 5 show ?thesis by (auto split: if_splits)
  next
    case (Some hs)
    then have pc: "p c" and hs: "rx_match_here (Many0 p # r) cs = Some hs"
      by (auto split: if_splits)
    from "5.IH"(1) [OF pc hs] have l: "length hs = length (Many0 p # r)" .
    then have "hs \<noteq> []" by auto
    from 5(3) Some have "gs = cons_first c hs" by simp
    with l \<open>hs \<noteq> []\<close> show ?thesis by (simp add: cons_first_length)
  qed
next
  case (7 p r c cs)
  from 7(2) obtain hs where pc: "p c" and hs: "rx_match_here (Many0 p # r) cs = Some hs"
    and gs: "gs = cons_first c hs"
    by (auto split: if_splits)
  from "7.IH" [OF pc hs] have l: "length hs = length (Many0 p # r)" .
  then have "hs \<noteq> []" by auto
  with gs l show ?case by (simp add: cons_first_length)
qed (auto split: if_splits)

lemma rx_match_here_text:
  "rx_match_here re s = Some gs \<Longrightarrow> \<exists>post. s = concat gs @ post"
proof (induction re s arbitrary: gs rule: rx_match_here.induct)
  case (5 p r c cs)
  show ?case
  proof (cases "if p c then rx_match_here (Many0 p # r) cs else None")
    case None
    with 5 show ?thesis by (auto split: if_splits)
  next
    case (Some hs)
    then have pc: "p c" and hs: "rx_match_here (Many0 p # r) cs = Some hs"
      by (auto split: if_splits)
    from "5.IH"(1) [OF pc hs] obtain post where "cs = concat hs @ post" by blast
    with 5(3) Some show ?thesis by (auto simp: concat_cons_first)
  qed
next
  case (7 p r c cs)
  from 7(2) obtain hs where pc: "p c" and hs: "rx_match_here (Many0 p # r) cs = Some hs"
    and gs: "gs = cons_first c hs"
    by (auto split: if_splits)
  from "7.IH" [OF pc hs] obtain post where "cs = concat hs @ post" by blast
  with gs show ?case by (auto simp: concat_cons_first)
qed (auto split: if_splits)

lemma rx_search_pieces:
  "rx_search re s = Some gs \<Longrightarrow> length gs = length re"
  by (induction re s rule: rx_search.induct)
     (auto simp: rx_match_here_pieces split: option.splits)

lemma rx_search_text:
  "rx_search re s = Some gs \<Longrightarrow> \<exists>pre post. s = pre @ concat gs @ post"
proof (induction re s rule: rx_search.induct)
  case (1 re)
  then show ?case using rx_match_here_text [of re "[]" gs] by auto
next
  case (2 re c cs)
  show ?case
  proof (cases "rx_match_here re (c # cs)")
    case None
    with 2 obtain pre post where "cs = pre @ concat gs @ post" by auto
    then have "c # cs = (c # pre) @ concat gs @ post" by simp
    then show ?thesis by blast
  next
    case (Some hs)
    with 2(2) have "hs = gs" by simp
    with Some obtain post where "c # cs = [] @ concat gs @ post"
      using rx_match_here_text [of re "c # cs" gs] by auto
    then show ?thesis by blast
  qed
qed

lemma retry_group_in_range: "rx_search retry_re s = Some m \<Longrightarrow> 9 < length m"
  by (drule rx_search_pieces) (simp add: retry_re_def)

lemma str_includes_iff: "str_includes s needle \<longleftrightarrow> (\<exists>pre post. s = pre @ needle @ post)"
proof (induction s)
  case Nil
  then show ?case by auto
next
  case (Cons c cs)
  show ?case
  proof
    assume "str_includes (c # cs) needle"
    then consider "take (length needle) (c # cs) = needle" | "str_includes cs needle" by auto
    then show "\<exists>pre post. c # cs = pre @ needle @ post"
    proof cases
      case 1
      then have "c # cs = [] @ needle @ drop (length needle) (c # cs)"
        by (metis append_Nil append_take_drop_id)
      then show ?thesis by blast
    next
      case 2
      with Cons obtain pre post where "cs = pre @ needle @ post" by auto
      then have "c # cs = (c # pre) @ needle @ post" by simp
      then show ?thesis by blast
    qed
  next
    assume "\<exists>pre post. c # cs = pre @ needle @ post"
    then obtain pre post where e: "c # cs = pre @ needle @ post" by auto
    show "str_includes (c # cs) needle"
    proof (cases pre)
      case Nil
      with e have "take (length needle) (c # cs) = needle" by simp
      then show ?thesis by simp
    next
      case (Cons d pre')
      with e have "cs = pre' @ needle @ post" by simp
      with Cons.IH show ?thesis by auto
    qed
  qed
qed

section \<open>Doubles\<close>



lemma bits_le: "n < 2 ^ k \<Longrightarrow> bits n \<le> k"
proof (induction n arbitrary: k rule: bits.induct)
  case (1 n)
  show ?case
  proof (cases "n = 0")
    case True
    then show ?thesis by (simp add: bits.simps)
  next
    case False
    with 1(2) obtain j where k: "k = Suc j" by (cases k) auto
    from 1(2) have "n div 2 < 2 ^ j" unfolding k by simp
    from 1(1) [OF False this] have "bits (n div 2) \<le> j" .
    with False show ?thesis unfolding k by (subst bits.simps) simp
  qed
qed

lemma bits_pos: "0 < n \<Longrightarrow> 0 < bits n"
  by (subst bits.simps) simp

lemma ilog2_less: "0 < x \<Longrightarrow> x < 2 ^ k \<Longrightarrow> ilog2 x < int k"
proof (cases "1 \<le> x")
  case True
  assume "0 < x" and x: "x < 2 ^ k"
  have "\<lfloor>x\<rfloor> < 2 ^ k" using x by (simp add: floor_less_iff)
  moreover have "0 \<le> \<lfloor>x\<rfloor>" using True by simp
  ultimately have "nat \<lfloor>x\<rfloor> < 2 ^ k" by (simp add: nat_less_iff)
  then have "bits (nat \<lfloor>x\<rfloor>) \<le> k" by (rule bits_le)
  with True show ?thesis by (simp add: ilog2_def)
next
  case False
  assume pos: "0 < x"
  with False have "1 < 1 / x" by simp
  then have "1 < \<lceil>1 / x\<rceil>" by (simp add: less_ceiling_iff)
  then have "0 < nat (\<lceil>1 / x\<rceil> - 1)" by simp
  then have "0 < bits (nat (\<lceil>1 / x\<rceil> - 1))" by (rule bits_pos)
  with False show ?thesis by (simp add: ilog2_def)
qed


lemma round_even_int: "round_even (of_int n) = n"
  by (simp add: round_even_def)



lemma fl_nat_exact:
  assumes "k < 2 ^ 53"
  shows "fl (real k) = Num (real k)"
proof (cases "k = 0")
  case True
  then show ?thesis by (simp add: fl_def)
next
  case False
  then have pos: "0 < real k" by simp
  have "real k < 2 ^ 53" using assms by (metis of_nat_less_iff of_nat_numeral of_nat_power)
  then have l: "ilog2 (real k) < 53" using ilog2_less [OF pos, of 53] by simp
  have small: "\<not> (2 ^ 54 - 1) * 2 ^ 970 \<le> real k"
  proof -
    have "(2::real) ^ 53 \<le> (2 ^ 54 - 1) * 2 ^ 970" by simp
    with \<open>real k < 2 ^ 53\<close> show ?thesis by linarith
  qed
  define e where "e = max (ilog2 (real k) - 52) (- 1074)"
  have e: "e \<le> 0" using l by (simp add: e_def)
  then have p: "pow2 e = 1 / 2 ^ nat (- e)" by (cases "e = 0") (simp_all add: pow2_def)
  have "real k / pow2 e = of_int (int k * 2 ^ nat (- e))" by (simp add: p)
  then have "round_even (real k / pow2 e) = int k * 2 ^ nat (- e)" by (simp only: round_even_int)
  then have "of_int (round_even (real k / pow2 e)) * pow2 e = real k" by (simp add: p)
  then have "fl_pos (real k) = Num (real k)"
    using small unfolding fl_pos_def e_def [symmetric] Let_def by simp
  with pos show ?thesis by (simp add: fl_def)
qed

lemma backoff_exact:
  assumes "attempt < MAX_RETRIES"
  shows "backoff attempt = Num (1000 * 2 ^ attempt)"
proof -
  from assms have a: "attempt < 3" by (simp add: MAX_RETRIES_def)
  then have "(2::nat) ^ attempt \<le> 2 ^ 2" by (intro power_increasing) simp_all
  then have le: "(2::nat) ^ attempt \<le> 4" by simp
  then have "(2::nat) ^ attempt < 2 ^ 53" by simp
  then have 1: "fl (2 ^ attempt) = Num (2 ^ attempt)"
    using fl_nat_exact [of "2 ^ attempt"] by simp
  have "1000 * 2 ^ attempt < (2::nat) ^ 53" using le by simp
  then have 2: "fl (1000 * 2 ^ attempt) = Num (1000 * 2 ^ attempt)"
    using fl_nat_exact [of "1000 * 2 ^ attempt"] by simp
  show ?thesis by (simp add: backoff_def BASE_DELAY_def 1 2)
qed




lemma fl_examples:
  "fl 1000 = Num 1000" "fl 1150 = Num 1150" "fl 2150 = Num 2150" "fl 4150 = Num 4150"
  "fl 150 = Num 150" "fl 2 = Num 2" "fl 2000 = Num 2000" "fl 1 = Num 1" "fl 4 = Num 4"
  "fl 4000 = Num 4000" "fl 5500 = Num 5500" "fl (11 / 2) = Num (11 / 2)"
  using fl_nat_exact [of 1000] fl_nat_exact [of 1150] fl_nat_exact [of 2150] fl_nat_exact [of 4150]
    fl_nat_exact [of 150] fl_nat_exact [of 2] fl_nat_exact [of 2000] fl_nat_exact [of 1]
    fl_nat_exact [of 4] fl_nat_exact [of 4000] fl_nat_exact [of 5500]
  by (simp_all add: fl_def fl_pos_def ilog2_def bits.simps pow2_def round_even_def Let_def)





lemma wait_values:
  "backoff 0 = Num 1000" "backoff (Suc 0) = Num 2000" "backoff (Suc (Suc 0)) = Num 4000"
  "jitter (1 / 2) = Num 150"
  "num_plus (Num 1000) (Num 150) = Num 1150" "num_plus (Num 2000) (Num 150) = Num 2150"
  "num_plus (Num 4000) (Num 150) = Num 4150"
  by (simp_all add: backoff_def BASE_DELAY_def jitter_def fl_examples)

section \<open>The loop of \<^verbatim>\<open>callAi\<close>\<close>

lemma loop_body_2xx:
  "fetch p url body a = Responds res \<Longrightarrow> res_ok res \<Longrightarrow> loop_body p url body a = Return (res_text res)"
  by (simp add: loop_body_def try_block_def)

lemma loop_body_retried:
  "a < MAX_RETRIES \<Longrightarrow> \<not> got_2xx (fetch p url body a) \<Longrightarrow> \<exists>ms. loop_body p url body a = Continue ms"
  by (cases "fetch p url body a") (auto simp: loop_body_def try_block_def catch_block_def)

lemma loop_body_last:
  "\<not> got_2xx (fetch p url body MAX_RETRIES) \<Longrightarrow>
   loop_body p url body MAX_RETRIES = Throw (final_error (fetch p url body MAX_RETRIES))"
  by (cases "fetch p url body MAX_RETRIES") (auto simp: loop_body_def try_block_def catch_block_def)

lemma callAi_from_Return:
  "a \<le> MAX_RETRIES \<Longrightarrow> loop_body p url body a = Return t \<Longrightarrow>
   callAi_from p url body a n zs = \<lparr>outcome = Inr t, fetches = Suc n, sleeps = zs\<rparr>"
  by (simp add: callAi_from.simps)

lemma callAi_from_Throw:
  "a \<le> MAX_RETRIES \<Longrightarrow> loop_body p url body a = Throw e \<Longrightarrow>
   callAi_from p url body a n zs = \<lparr>outcome = Inl e, fetches = Suc n, sleeps = zs\<rparr>"
  by (simp add: callAi_from.simps)

lemma callAi_from_Continue:
  "a \<le> MAX_RETRIES \<Longrightarrow> loop_body p url body a = Continue ms \<Longrightarrow>
   callAi_from p url body a n zs = callAi_from p url body (Suc a) (Suc n) (zs @ [ms])"
  by (simp add: callAi_from.simps)

lemma api_error_is_caught:
  assumes "fetch p url body a = Responds res" and "\<not> res_ok res"
    and "res_status res \<noteq> 429" and "res_status res \<noteq> 503" and "a < MAX_RETRIES"
  shows "loop_body p url body a = Continue (num_plus (backoff a) (jitter (Math_random p a)))"
  using assms by (simp add: loop_body_def try_block_def catch_block_def)

lemma abort_is_retried:
  assumes "fetch p url body a = Throws err" and "err_name err = ''AbortError''" and "a < MAX_RETRIES"
  shows "loop_body p url body a = Continue (Num (1000 * 2 ^ a))"
  using assms by (simp add: loop_body_def try_block_def catch_block_def backoff_exact)

lemma all_aborted:
  assumes "\<forall>k\<le>MAX_RETRIES. \<exists>err. fetch p url body k = Throws err \<and> err_name err = ''AbortError''"
  shows "callAi_from p url body 0 0 [] =
     \<lparr>outcome = Inl (JsError ''Error'' ''AI request timed out''), fetches = 4, sleeps = [Num 1000, Num 2000, Num 4000]\<rparr>"
proof -
  have ab: "\<exists>err. fetch p url body k = Throws err \<and> err_name err = ''AbortError''" if "k \<le> 3" for k
    using assms that by (simp add: MAX_RETRIES_def)
  have c: "loop_body p url body k = Continue (Num (1000 * 2 ^ k))" if "k < 3" for k
    using ab [of k] that abort_is_retried [of p url body k] by (auto simp: MAX_RETRIES_def)
  have l: "loop_body p url body 3 = Throw (JsError ''Error'' ''AI request timed out'')"
    using ab [of 3] by (auto simp: loop_body_def try_block_def catch_block_def MAX_RETRIES_def)
  have "callAi_from p url body 0 0 [] = callAi_from p url body 1 1 [Num 1000]"
    using callAi_from_Continue [of 0 p url body _ 0 "[]"] c [of 0] by (simp add: MAX_RETRIES_def)
  also have "\<dots> = callAi_from p url body 2 2 [Num 1000, Num 2000]"
    using callAi_from_Continue [of 1 p url body _ 1 "[Num 1000]"] c [of 1] by (simp add: MAX_RETRIES_def numeral_2_eq_2)
  also have "\<dots> = callAi_from p url body 3 3 [Num 1000, Num 2000, Num 4000]"
    using callAi_from_Continue [of 2 p url body _ 2 "[Num 1000, Num 2000]"] c [of 2] by (simp add: MAX_RETRIES_def numeral_3_eq_3)
  also have "\<dots> = \<lparr>outcome = Inl (JsError ''Error'' ''AI request timed out''), fetches = 4, sleeps = [Num 1000, Num 2000, Num 4000]\<rparr>"
    using callAi_from_Throw [of 3 p url body _ 3 "[Num 1000, Num 2000, Num 4000]"] l by (simp add: MAX_RETRIES_def)
  finally show ?thesis .
qed

lemma callAi_from_first_2xx:
  assumes "a \<le> MAX_RETRIES"
    and "fetch p url body a = Responds res" and "res_ok res"
  shows "k \<le> a \<Longrightarrow> (\<forall>j. k \<le> j \<and> j < a \<longrightarrow> \<not> got_2xx (fetch p url body j)) \<Longrightarrow>
     outcome (callAi_from p url body k n zs) = Inr (res_text res)
     \<and> fetches (callAi_from p url body k n zs) = n + (a - k) + 1
     \<and> length (sleeps (callAi_from p url body k n zs)) = length zs + (a - k)"
proof (induction "a - k" arbitrary: k n zs)
  case 0
  then have "k = a" by simp
  then show ?case
    using assms by (simp add: callAi_from_Return loop_body_2xx)
next
  case (Suc d)
  then have lt: "k < a" by simp
  with assms(1) have kM: "k < MAX_RETRIES" by simp
  from Suc.prems lt have "\<not> got_2xx (fetch p url body k)" by simp
  with kM obtain ms where c: "loop_body p url body k = Continue ms"
    using loop_body_retried by blast
  have step: "callAi_from p url body k n zs = callAi_from p url body (Suc k) (Suc n) (zs @ [ms])"
    using kM c by (simp add: callAi_from_Continue)
  have d: "d = a - Suc k" using Suc.hyps(2) by simp
  have p1: "Suc k \<le> a" using lt by simp
  have p2: "\<forall>j. Suc k \<le> j \<and> j < a \<longrightarrow> \<not> got_2xx (fetch p url body j)"
    using Suc.prems(2) by simp
  note ih = Suc.hyps(1) [OF d p1 p2, of "Suc n" "zs @ [ms]"]
  have e1: "n + (a - k) + 1 = Suc n + (a - Suc k) + 1" using lt by arith
  have e2: "length zs + (a - k) = length (zs @ [ms]) + (a - Suc k)" using lt by simp
  show ?case unfolding step e1 e2 by (rule ih)
qed

lemma callAi_from_exhausted:
  "k \<le> MAX_RETRIES \<Longrightarrow> (\<forall>j. k \<le> j \<and> j \<le> MAX_RETRIES \<longrightarrow> \<not> got_2xx (fetch p url body j)) \<Longrightarrow>
     outcome (callAi_from p url body k n zs) = Inl (final_error (fetch p url body MAX_RETRIES))
     \<and> fetches (callAi_from p url body k n zs) = n + (MAX_RETRIES - k) + 1
     \<and> length (sleeps (callAi_from p url body k n zs)) = length zs + (MAX_RETRIES - k)"
proof (induction "MAX_RETRIES - k" arbitrary: k n zs)
  case 0
  then have "k = MAX_RETRIES" by simp
  then show ?case
    using 0 by (simp add: callAi_from_Throw loop_body_last)
next
  case (Suc d)
  then have kM: "k < MAX_RETRIES" by simp
  from Suc.prems have "\<not> got_2xx (fetch p url body k)" by simp
  with kM obtain ms where c: "loop_body p url body k = Continue ms"
    using loop_body_retried by blast
  have step: "callAi_from p url body k n zs = callAi_from p url body (Suc k) (Suc n) (zs @ [ms])"
    using kM c by (simp add: callAi_from_Continue)
  have d: "d = MAX_RETRIES - Suc k" using Suc.hyps(2) by simp
  have p1: "Suc k \<le> MAX_RETRIES" using kM by simp
  have p2: "\<forall>j. Suc k \<le> j \<and> j \<le> MAX_RETRIES \<longrightarrow> \<not> got_2xx (fetch p url body j)"
    using Suc.prems(2) by simp
  note ih = Suc.hyps(1) [OF d p1 p2, of "Suc n" "zs @ [ms]"]
  have e1: "n + (MAX_RETRIES - k) + 1 = Suc n + (MAX_RETRIES - Suc k) + 1" using kM by arith
  have e2: "length zs + (MAX_RETRIES - k) = length (zs @ [ms]) + (MAX_RETRIES - Suc k)" using kM by simp
  show ?case unfolding step e1 e2 by (rule ih)
qed

section \<open>Transport\<close>

lemma callAi_first_2xx:
  assumes "a \<le> MAX_RETRIES"
    and "fetch p (endpoint key) (request_body prompt) a = Responds res" and "res_ok res"
    and "\<forall>j<a. \<not> got_2xx (fetch p (endpoint key) (request_body prompt) j)"
  shows "outcome (callAi p prompt key) = Inr (res_text res)
     \<and> fetches (callAi p prompt key) = a + 1
     \<and> length (sleeps (callAi p prompt key)) = a"
  using callAi_from_first_2xx [OF assms(1-3), of 0 0 "[]"] assms(4)
  by (simp add: callAi_def)

lemma callAi_exhausted:
  assumes "\<forall>k\<le>MAX_RETRIES. \<not> got_2xx (fetch p (endpoint key) (request_body prompt) k)"
  shows "outcome (callAi p prompt key)
           = Inl (final_error (fetch p (endpoint key) (request_body prompt) MAX_RETRIES))
     \<and> fetches (callAi p prompt key) = MAX_RETRIES + 1
     \<and> length (sleeps (callAi p prompt key)) = MAX_RETRIES"
  using callAi_from_exhausted [of 0 p "endpoint key" "request_body prompt" 0 "[]"] assms
  by (simp add: callAi_def)

text \<open>
  C8. On a 2xx response the body text is returned at once: when attempt \<open>a\<close> is the
  first with a 2xx response, the call returns its text after \<open>a + 1\<close> calls of
  \<^verbatim>\<open>fetch\<close> and \<open>a\<close> waits. For the responses 503, 503, 200 this is three calls and
  the text of the 200 response.
\<close>

theorem C8_first_2xx_ends_the_call:
  "(a \<le> MAX_RETRIES
      \<and> fetch p (endpoint key) (request_body prompt) a = Responds res \<and> res_ok res
      \<and> (\<forall>j<a. \<not> got_2xx (fetch p (endpoint key) (request_body prompt) j))
    \<longrightarrow> outcome (callAi p prompt key) = Inr (res_text res)
        \<and> fetches (callAi p prompt key) = a + 1
        \<and> length (sleeps (callAi p prompt key)) = a)
   \<and> (fetch p (endpoint key) (request_body prompt) 0 = Responds r0 \<and> res_status r0 = 503
      \<and> fetch p (endpoint key) (request_body prompt) 1 = Responds r1 \<and> res_status r1 = 503
      \<and> fetch p (endpoint key) (request_body prompt) 2 = Responds r2 \<and> res_status r2 = 200
    \<longrightarrow> outcome (callAi p prompt key) = Inr (res_text r2)
        \<and> fetches (callAi p prompt key) = 3)"
proof (intro conjI impI)
  assume h: "a \<le> MAX_RETRIES
      \<and> fetch p (endpoint key) (request_body prompt) a = Responds res \<and> res_ok res
      \<and> (\<forall>j<a. \<not> got_2xx (fetch p (endpoint key) (request_body prompt) j))"
  then have r: "outcome (callAi p prompt key) = Inr (res_text res)
     \<and> fetches (callAi p prompt key) = a + 1
     \<and> length (sleeps (callAi p prompt key)) = a"
    using callAi_first_2xx [of a p key prompt res] by blast
  from r show "outcome (callAi p prompt key) = Inr (res_text res)" by simp
  from r show "fetches (callAi p prompt key) = a + 1" by simp
  from r show "length (sleeps (callAi p prompt key)) = a" by simp
next
  assume h: "fetch p (endpoint key) (request_body prompt) 0 = Responds r0 \<and> res_status r0 = 503
      \<and> fetch p (endpoint key) (request_body prompt) 1 = Responds r1 \<and> res_status r1 = 503
      \<and> fetch p (endpoint key) (request_body prompt) 2 = Responds r2 \<and> res_status r2 = 200"
  have early: "\<forall>j<2. \<not> got_2xx (fetch p (endpoint key) (request_body prompt) j)"
  proof (intro allI impI)
    fix j :: nat assume "j < 2"
    then have "j = 0 \<or> j = 1" by arith
    with h show "\<not> got_2xx (fetch p (endpoint key) (request_body prompt) j)"
      by (auto simp: res_ok_def)
  qed
  have ok: "res_ok r2" using h by (simp add: res_ok_def)
  have r: "outcome (callAi p prompt key) = Inr (res_text r2)
     \<and> fetches (callAi p prompt key) = 2 + 1"
    using callAi_first_2xx [of 2 p key prompt r2] h ok early by (simp add: MAX_RETRIES_def)
  from r show "outcome (callAi p prompt key) = Inr (res_text r2)" by simp
  from r show "fetches (callAi p prompt key) = 3" by simp
qed

theorem C8_witness:
  "fetch (scripted busy_twice) (endpoint ''secret'') (request_body ''form'') 0 = reply 503 ''busy''
   \<and> fetch (scripted busy_twice) (endpoint ''secret'') (request_body ''form'') 1 = reply 503 ''busy''
   \<and> fetch (scripted busy_twice) (endpoint ''secret'') (request_body ''form'') 2 = reply 200 ''fine''
   \<and> outcome (callAi (scripted busy_twice) ''form'' ''secret'') = Inr ''fine''
   \<and> fetches (callAi (scripted busy_twice) ''form'' ''secret'') = 3
   \<and> length (sleeps (callAi (scripted busy_twice) ''form'' ''secret'')) = 2"
  using C8_first_2xx_ends_the_call [of 2 "scripted busy_twice" "''secret''" "''form''"
      "\<lparr>res_status = 200, res_retry_after = None, res_text = ''fine''\<rparr>"
      "\<lparr>res_status = 503, res_retry_after = None, res_text = ''busy''\<rparr>"
      "\<lparr>res_status = 503, res_retry_after = None, res_text = ''busy''\<rparr>"
      "\<lparr>res_status = 200, res_retry_after = None, res_text = ''fine''\<rparr>"]
  by (simp add: scripted_def busy_twice_def reply_def res_ok_def MAX_RETRIES_def)

lemma callAi_all_aborted:
  assumes "\<forall>k\<le>MAX_RETRIES. \<exists>err. fetch p (endpoint key) (request_body prompt) k = Throws err
              \<and> err_name err = ''AbortError''"
  shows "callAi p prompt key =
     \<lparr>outcome = Inl (JsError ''Error'' ''AI request timed out''), fetches = 4,
      sleeps = [Num 1000, Num 2000, Num 4000]\<rparr>"
  unfolding callAi_def using assms by (rule all_aborted)

section \<open>Orchestrator\<close>

lemma POST_forwarded:
  assumes "forwarded p req_text prompt key"
  shows "POST p req_text =
     (case outcome (callAi p (fullPrompt prompt) key) of
        Inl error \<Rightarrow> \<lparr>response = catch_response error,
                       transport = Some (callAi p (fullPrompt prompt) key)\<rparr>
      | Inr text \<Rightarrow> \<lparr>response = interpret_reply p (parsedReply_of p text),
                      transport = Some (callAi p (fullPrompt prompt) key)\<rparr>)"
proof -
  from assms obtain body where b: "JSON_parse p req_text = Inr body"
    and pr: "opt_prop (Some body) ''prompt'' = Some (JString prompt)"
    by (auto simp: forwarded_def split: sum.splits)
  from assms have rest: "prompt \<noteq> []" "\<not> useMock p" "apiKey p = Some key" "key \<noteq> []"
    by (simp_all add: forwarded_def)
  show ?thesis
    unfolding POST_def b using pr rest by (simp add: Let_def)
qed

lemma catch_timed_out:
  "catch_response (JsError ''Error'' ''AI request timed out'')
     = \<lparr>status = 504, payload = JObject [(''error'', JString ''AI request timed out'')]\<rparr>"
  by (simp add: catch_response_def)

text \<open>
  C9. An attempt that is aborted by the timer and is not the last one is followed by
  a wait of exactly \<open>1000 * 2 ^ attempt\<close> milliseconds, without jitter, and by the next
  attempt. When all four attempts are aborted, \<^verbatim>\<open>callAi\<close> has waited 1000, 2000 and
  4000 milliseconds and throws the time-out error, and the handler of a forwarded
  request answers 504 with the error \<^verbatim>\<open>AI request timed out\<close>.
\<close>

theorem C9_timeouts:
  "(attempt < MAX_RETRIES \<and> fetch p url body attempt = Throws err \<and> err_name err = ''AbortError''
    \<longrightarrow> callAi_from p url body attempt n zs
          = callAi_from p url body (Suc attempt) (Suc n) (zs @ [Num (1000 * 2 ^ attempt)]))
   \<and> ((\<forall>k\<le>MAX_RETRIES. \<exists>e. fetch p (endpoint key) (request_body prompt) k = Throws e
            \<and> err_name e = ''AbortError'')
    \<longrightarrow> callAi p prompt key =
          \<lparr>outcome = Inl (JsError ''Error'' ''AI request timed out''), fetches = 4,
           sleeps = [Num 1000, Num 2000, Num 4000]\<rparr>)
   \<and> (forwarded p req_text form key
      \<and> (\<forall>k\<le>MAX_RETRIES. \<exists>e. fetch p (endpoint key) (request_body (fullPrompt form)) k = Throws e
            \<and> err_name e = ''AbortError'')
    \<longrightarrow> response (POST p req_text) =
          \<lparr>status = 504, payload = JObject [(''error'', JString ''AI request timed out'')]\<rparr>)"
proof (intro conjI impI)
  assume h: "attempt < MAX_RETRIES \<and> fetch p url body attempt = Throws err \<and> err_name err = ''AbortError''"
  then have "loop_body p url body attempt = Continue (Num (1000 * 2 ^ attempt))"
    by (simp add: abort_is_retried)
  with h show "callAi_from p url body attempt n zs
          = callAi_from p url body (Suc attempt) (Suc n) (zs @ [Num (1000 * 2 ^ attempt)])"
    by (simp add: callAi_from_Continue)
next
  assume "\<forall>k\<le>MAX_RETRIES. \<exists>e. fetch p (endpoint key) (request_body prompt) k = Throws e
            \<and> err_name e = ''AbortError''"
  then show "callAi p prompt key =
          \<lparr>outcome = Inl (JsError ''Error'' ''AI request timed out''), fetches = 4,
           sleeps = [Num 1000, Num 2000, Num 4000]\<rparr>"
    by (rule callAi_all_aborted)
next
  assume h: "forwarded p req_text form key
      \<and> (\<forall>k\<le>MAX_RETRIES. \<exists>e. fetch p (endpoint key) (request_body (fullPrompt form)) k = Throws e
            \<and> err_name e = ''AbortError'')"
  then have t: "callAi p (fullPrompt form) key =
          \<lparr>outcome = Inl (JsError ''Error'' ''AI request timed out''), fetches = 4,
           sleeps = [Num 1000, Num 2000, Num 4000]\<rparr>"
    using callAi_all_aborted [of p key "fullPrompt form"] by blast
  from h have fw: "forwarded p req_text form key" by simp
  show "response (POST p req_text) =
          \<lparr>status = 504, payload = JObject [(''error'', JString ''AI request timed out'')]\<rparr>"
    unfolding POST_forwarded [OF fw] t by (simp add: catch_timed_out)
qed

lemma form_request:
  "JSON_parse (scripted script) ''{\"prompt\":\"form\"}'' = Inr (JObject [(''prompt'', JString ''form'')])"
  by (simp add: scripted_def std_JSON_parse_def json_text_def skip_ws_def is_json_ws_def push_char_def)

lemma form_forwarded: "forwarded (scripted script) ''{\"prompt\":\"form\"}'' ''form'' ''secret''"
  by (simp add: forwarded_def form_request) (simp add: scripted_def useMock_def apiKey_def)

theorem C9_witness:
  "forwarded (scripted (always aborted)) ''{\"prompt\":\"form\"}'' ''form'' ''secret''
   \<and> fetch (scripted (always aborted)) (endpoint ''secret'') (request_body (fullPrompt ''form'')) 0 = aborted
   \<and> callAi_from (scripted (always aborted)) (endpoint ''secret'') (request_body (fullPrompt ''form'')) 0 0 []
       = callAi_from (scripted (always aborted)) (endpoint ''secret'') (request_body (fullPrompt ''form'')) 1 1 [Num 1000]
   \<and> callAi (scripted (always aborted)) (fullPrompt ''form'') ''secret'' =
          \<lparr>outcome = Inl (JsError ''Error'' ''AI request timed out''), fetches = 4,
           sleeps = [Num 1000, Num 2000, Num 4000]\<rparr>
   \<and> response (POST (scripted (always aborted)) ''{\"prompt\":\"form\"}'') =
          \<lparr>status = 504, payload = JObject [(''error'', JString ''AI request timed out'')]\<rparr>"
proof -
  have a: "\<forall>k\<le>MAX_RETRIES. \<exists>e. fetch (scripted (always aborted)) (endpoint ''secret'')
      (request_body (fullPrompt ''form'')) k = Throws e \<and> err_name e = ''AbortError''"
    by (simp add: scripted_def always_def aborted_def)
  show ?thesis
    using C9_timeouts [of 0 "scripted (always aborted)" "endpoint ''secret''"
        "request_body (fullPrompt ''form'')" "JsError ''AbortError'' ''This operation was aborted''"
        0 "[]" "''secret''" "fullPrompt ''form''" "''{\"prompt\":\"form\"}''" "''form''"]
      a form_forwarded [of "always aborted"]
    by (simp add: scripted_def always_def aborted_def MAX_RETRIES_def)
qed

lemma first_2xx_exists:
  assumes "k \<le> MAX_RETRIES" and "got_2xx (fetch p url body k)"
  shows "\<exists>a\<le>MAX_RETRIES. got_2xx (fetch p url body a) \<and> (\<forall>j<a. \<not> got_2xx (fetch p url body j))"
proof -
  let ?a = "LEAST a. got_2xx (fetch p url body a)"
  have 1: "got_2xx (fetch p url body ?a)" using assms(2) by (rule LeastI)
  have 2: "?a \<le> k" using assms(2) by (rule Least_le)
  have 3: "\<forall>j<?a. \<not> got_2xx (fetch p url body j)" using not_less_Least by blast
  from 2 assms(1) have 4: "?a \<le> MAX_RETRIES" by (rule order_trans)
  from 4 1 3 show ?thesis by (intro exI [of _ ?a] conjI)
qed

lemma callAi_failure_is_final_error:
  assumes "outcome (callAi p prompt key) = Inl e"
  shows "e = final_error (fetch p (endpoint key) (request_body prompt) MAX_RETRIES)"
proof (cases "\<exists>k\<le>MAX_RETRIES. got_2xx (fetch p (endpoint key) (request_body prompt) k)")
  case True
  then obtain a where a: "a \<le> MAX_RETRIES" "got_2xx (fetch p (endpoint key) (request_body prompt) a)"
    "\<forall>j<a. \<not> got_2xx (fetch p (endpoint key) (request_body prompt) j)"
    using first_2xx_exists by blast
  from a(2) obtain res where r: "fetch p (endpoint key) (request_body prompt) a = Responds res" "res_ok res"
    by (cases "fetch p (endpoint key) (request_body prompt) a") auto
  have "outcome (callAi p prompt key) = Inr (res_text res)"
    using callAi_first_2xx [OF a(1) r a(3)] by (rule conjunct1)
  with assms show ?thesis by simp
next
  case False
  then have "\<forall>k\<le>MAX_RETRIES. \<not> got_2xx (fetch p (endpoint key) (request_body prompt) k)" by blast
  then have "outcome (callAi p prompt key)
      = Inl (final_error (fetch p (endpoint key) (request_body prompt) MAX_RETRIES))"
    by (rule callAi_exhausted [THEN conjunct1])
  with assms show ?thesis by simp
qed

text \<open>
  C2, as the code has it. When none of the four attempts gets a 2xx response,
  \<^verbatim>\<open>callAi\<close> makes four calls and throws the error of the last attempt: the status and
  body text of its response, the time-out error, or what \<^verbatim>\<open>fetch\<close> threw. Every error
  that \<^verbatim>\<open>callAi\<close> throws is of this kind; the \<^verbatim>\<open>throw\<close> of line 85 is never reached.
\<close>

theorem C2_exhausted_throws_last_error:
  "((\<forall>k\<le>MAX_RETRIES. \<not> got_2xx (fetch p (endpoint key) (request_body prompt) k))
    \<longrightarrow> outcome (callAi p prompt key)
          = Inl (final_error (fetch p (endpoint key) (request_body prompt) MAX_RETRIES))
        \<and> fetches (callAi p prompt key) = MAX_RETRIES + 1)
   \<and> (outcome (callAi p prompt key) = Inl e
    \<longrightarrow> e = final_error (fetch p (endpoint key) (request_body prompt) MAX_RETRIES))"
proof (intro conjI impI)
  assume h: "\<forall>k\<le>MAX_RETRIES. \<not> got_2xx (fetch p (endpoint key) (request_body prompt) k)"
  show "outcome (callAi p prompt key)
          = Inl (final_error (fetch p (endpoint key) (request_body prompt) MAX_RETRIES))"
    using callAi_exhausted [OF h] by (rule conjunct1)
  show "fetches (callAi p prompt key) = MAX_RETRIES + 1"
    using callAi_exhausted [OF h] by (elim conjE)
next
  assume "outcome (callAi p prompt key) = Inl e"
  then show "e = final_error (fetch p (endpoint key) (request_body prompt) MAX_RETRIES)"
    by (rule callAi_failure_is_final_error)
qed

theorem C2_witness:
  "\<not> got_2xx (reply 503 ''busy'')
   \<and> fetch (scripted (always (reply 503 ''busy''))) (endpoint ''secret'') (request_body ''form'') 3
       = reply 503 ''busy''
   \<and> outcome (callAi (scripted (always (reply 503 ''busy''))) ''form'' ''secret'')
       = Inl (JsError ''Error'' ''AI API error 503: busy'')
   \<and> fetches (callAi (scripted (always (reply 503 ''busy''))) ''form'' ''secret'') = 4"
proof -
  have a: "\<forall>k\<le>MAX_RETRIES. \<not> got_2xx (fetch (scripted (always (reply 503 ''busy'')))
      (endpoint ''secret'') (request_body ''form'') k)"
    by (simp add: scripted_def always_def reply_def res_ok_def)
  show ?thesis
    using C2_exhausted_throws_last_error [of "scripted (always (reply 503 ''busy''))" "''secret''"
        "''form''" "JsError ''Error'' ''AI API error 503: busy''"] a
    by (simp add: scripted_def always_def reply_def res_ok_def MAX_RETRIES_def
        show_nat.simps digit_char_def)
qed

theorem C2_counterexample:
  "fetches (callAi (scripted (always (reply 503 ''busy''))) ''form'' ''secret'') = 4
   \<and> outcome (callAi (scripted (always (reply 503 ''busy''))) ''form'' ''secret'')
       = Inl (JsError ''Error'' ''AI API error 503: busy'')
   \<and> \<not> str_includes ''AI API error 503: busy'' ''request failed after retries''"
  by (simp add: callAi_def callAi_from.simps loop_body_def try_block_def catch_block_def
      scripted_def always_def reply_def res_ok_def MAX_RETRIES_def wait_values fl_examples
      show_nat.simps digit_char_def retry_wait_def retry_re_def ci_def upper_code_def
      is_digit_def)

text \<open>
  C1, at the failing input. A 403 on every attempt: the error thrown at line 67 is
  caught at line 68 and retried, so four calls are made before the handler answers
  502. A 403 followed by a 200: the call is retried and succeeds.
\<close>

theorem C1_forbidden_is_retried:
  "POST (scripted (always (reply 403 ''Forbidden''))) ''{\"prompt\":\"form\"}'' =
     \<lparr>response = \<lparr>status = 502, payload = JObject [(''error'', JString ''AI API error''),
          (''details'', JString ''AI API error 403: Forbidden'')]\<rparr>,
      transport = Some \<lparr>outcome = Inl (JsError ''Error'' ''AI API error 403: Forbidden''),
          fetches = 4, sleeps = [Num 1150, Num 2150, Num 4150]\<rparr>\<rparr>
   \<and> POST (scripted forbidden_once) ''{\"prompt\":\"form\"}'' =
     \<lparr>response = \<lparr>status = 200, payload = JObject []\<rparr>,
      transport = Some \<lparr>outcome = Inr ''{}'', fetches = 2, sleeps = [Num 1150]\<rparr>\<rparr>"
proof -
  have 1: "callAi (scripted (always (reply 403 ''Forbidden''))) (fullPrompt ''form'') ''secret'' =
     \<lparr>outcome = Inl (JsError ''Error'' ''AI API error 403: Forbidden''),
          fetches = 4, sleeps = [Num 1150, Num 2150, Num 4150]\<rparr>"
    by (simp add: callAi_def callAi_from.simps loop_body_def try_block_def catch_block_def
      scripted_def always_def reply_def res_ok_def MAX_RETRIES_def wait_values fl_examples
      show_nat.simps digit_char_def)
  have 2: "callAi (scripted forbidden_once) (fullPrompt ''form'') ''secret'' =
     \<lparr>outcome = Inr ''{}'', fetches = 2, sleeps = [Num 1150]\<rparr>"
    by (simp add: callAi_def callAi_from.simps loop_body_def try_block_def catch_block_def
      scripted_def forbidden_once_def reply_def res_ok_def MAX_RETRIES_def wait_values fl_examples
      show_nat.simps digit_char_def)
  have 3: "catch_response (JsError ''Error'' ''AI API error 403: Forbidden'') =
     \<lparr>status = 502, payload = JObject [(''error'', JString ''AI API error''),
          (''details'', JString ''AI API error 403: Forbidden'')]\<rparr>"
    by (simp add: catch_response_def)
  have 4: "interpret_reply (scripted forbidden_once) (parsedReply_of (scripted forbidden_once) ''{}'')
     = \<lparr>status = 200, payload = JObject []\<rparr>"
    by (simp add: interpret_reply_def parsedReply_of_def extractJsonFromReply_def brace_re_def
        scripted_def std_JSON_parse_def json_text_def skip_ws_def is_json_ws_def)
  show ?thesis
    unfolding POST_forwarded [OF form_forwarded] 1 2 by (simp add: 3 4)
qed

theorem C1_witness:
  "status (response (POST (scripted (always (reply 403 ''Forbidden''))) ''{\"prompt\":\"form\"}'')) = 502
   \<and> map_option fetches (transport (POST (scripted (always (reply 403 ''Forbidden'')))
         ''{\"prompt\":\"form\"}'')) = Some 4
   \<and> map_option fetches (transport (POST (scripted forbidden_once) ''{\"prompt\":\"form\"}'')) = Some 2"
  using C1_forbidden_is_retried by simp

section \<open>The wait before a retry\<close>



lemma fl_16_1: "fl (161 / 10) = Num (2265873562520781 / 2 ^ 47)"
  by (simp add: fl_def fl_pos_def ilog2_def bits.simps pow2_def round_even_def Let_def)

lemma wait_16_1: "num_ceil (num_times (Num (2265873562520781 / 2 ^ 47)) (Num 1000)) = Num 16101"
  by (simp add: fl_def fl_pos_def ilog2_def bits.simps pow2_def round_even_def Let_def)

lemma fl_big: "fl 9007199254740993 = Num 9007199254740992"
  "num_times (Num 9007199254740992) (Num 1000) = Num 9007199254740992000"
  by (simp_all add: fl_def fl_pos_def ilog2_def bits.simps pow2_def round_even_def Let_def)


lemma hint_16_1:
  "hint_seconds ''Quota exceeded. Please retry in 16.1s.'' = Some (Num (2265873562520781 / 2 ^ 47))"
  by (simp add: hint_seconds_def retry_re_def ci_def upper_code_def is_digit_def parseFloat_def
      digits_val_def digit_val_def fl_16_1)


lemma header_big: "header_seconds (Some ''9007199254740993'') = Some (Num 9007199254740992)"
  by (simp add: header_seconds_def parseInt10_def is_js_space_def is_digit_def digits_val_def
      digit_val_def fl_big(1))































section \<open>Requests that are answered without a call\<close>

lemma POST_not_json:
  "JSON_parse p req_text = Inl error \<Longrightarrow>
   POST p req_text = \<lparr>response = catch_response error, transport = None\<rparr>"
  by (simp add: POST_def)

lemma invalid_prompt_iff:
  "(\<not> truthy v \<or> js_typeof v \<noteq> ''string'')
     = (case v of None \<Rightarrow> True | Some (JString s) \<Rightarrow> s = [] | Some _ \<Rightarrow> True)"
  by (cases v rule: truthy.cases) simp_all

text \<open>
  C3. A body that is JSON and whose \<^verbatim>\<open>prompt\<close> is absent, not a string, or the empty
  string is answered with 400 and the error
  \<^verbatim>\<open>Missing or invalid 'prompt' in request body\<close>, and \<^verbatim>\<open>callAi\<close> is not called.
\<close>

theorem C3_invalid_prompt_400:
  "JSON_parse p req_text = Inr body
   \<and> (case opt_prop (Some body) ''prompt'' of
         None \<Rightarrow> True
       | Some (JString s) \<Rightarrow> s = []
       | Some _ \<Rightarrow> True)
   \<longrightarrow> POST p req_text =
        \<lparr>response = \<lparr>status = 400, payload = JObject
           [(''error'', JString ''Missing or invalid 'prompt' in request body'')]\<rparr>,
         transport = None\<rparr>"
proof
  assume h: "JSON_parse p req_text = Inr body
   \<and> (case opt_prop (Some body) ''prompt'' of
         None \<Rightarrow> True
       | Some (JString s) \<Rightarrow> s = []
       | Some _ \<Rightarrow> True)"
  then have "\<not> truthy (opt_prop (Some body) ''prompt'')
      \<or> js_typeof (opt_prop (Some body) ''prompt'') \<noteq> ''string''"
    by (simp only: invalid_prompt_iff)
  with h show "POST p req_text =
        \<lparr>response = \<lparr>status = 400, payload = JObject
           [(''error'', JString ''Missing or invalid 'prompt' in request body'')]\<rparr>,
         transport = None\<rparr>"
    by (simp add: POST_def Let_def bad_request_def)
qed

lemma parse_examples:
  "JSON_parse (scripted script) ''{}'' = Inr (JObject [])"
  "JSON_parse (scripted script) ''{\"prompt\":\"\"}'' = Inr (JObject [(''prompt'', JString '''')])"
  "JSON_parse (scripted script) ''{\"prompt\":[\"form\"]}''
     = Inr (JObject [(''prompt'', JArray [JString ''form''])])"
  "JSON_parse (scripted script) ''null'' = Inr JNull"
  by (simp_all add: scripted_def std_JSON_parse_def json_text_def skip_ws_def is_json_ws_def
      push_char_def strip_prefix_def)

theorem C3_witness:
  "JSON_parse (scripted (always aborted)) ''{}'' = Inr (JObject [])
   \<and> POST (scripted (always aborted)) ''{}'' =
        \<lparr>response = \<lparr>status = 400, payload = JObject
           [(''error'', JString ''Missing or invalid 'prompt' in request body'')]\<rparr>,
         transport = None\<rparr>
   \<and> POST (scripted (always aborted)) ''{\"prompt\":\"\"}'' =
        \<lparr>response = \<lparr>status = 400, payload = JObject
           [(''error'', JString ''Missing or invalid 'prompt' in request body'')]\<rparr>,
         transport = None\<rparr>
   \<and> POST (scripted (always aborted)) ''{\"prompt\":[\"form\"]}'' =
        \<lparr>response = \<lparr>status = 400, payload = JObject
           [(''error'', JString ''Missing or invalid 'prompt' in request body'')]\<rparr>,
         transport = None\<rparr>
   \<and> POST (scripted (always aborted)) ''null'' =
        \<lparr>response = \<lparr>status = 400, payload = JObject
           [(''error'', JString ''Missing or invalid 'prompt' in request body'')]\<rparr>,
         transport = None\<rparr>"
  using
    C3_invalid_prompt_400 [of "scripted (always aborted)" "''{}''" "JObject []"]
    C3_invalid_prompt_400 [of "scripted (always aborted)" "''{\"prompt\":\"\"}''"
      "JObject [(''prompt'', JString '''')]"]
    C3_invalid_prompt_400 [of "scripted (always aborted)" "''{\"prompt\":[\"form\"]}''"
      "JObject [(''prompt'', JArray [JString ''form''])]"]
    C3_invalid_prompt_400 [of "scripted (always aborted)" "''null''" JNull]
  by (simp add: parse_examples)

lemma mocked_parse: "JSON_parse mocked = JSON_parse (scripted (always aborted))"
  by (simp add: mocked_def)

lemma POST_mock:
  assumes "useMock p"
  shows "transport (POST p req_text) = None"
    and "JSON_parse p req_text = Inr body \<Longrightarrow>
         opt_prop (Some body) ''prompt'' = Some (JString s) \<Longrightarrow> s \<noteq> [] \<Longrightarrow>
         response (POST p req_text) = \<lparr>status = 200, payload = canned\<rparr>"
  using assms by (auto simp: POST_def Let_def split: sum.splits)

text \<open>
  C4, as the code has it. In mock mode \<^verbatim>\<open>callAi\<close> is never called, whatever the
  request is, and every request whose body is JSON with a non-empty string \<^verbatim>\<open>prompt\<close>
  gets the same canned result with status 200. The check of the prompt comes first: an
  absent, non-string or empty prompt gets the 400 of C3 in mock mode too.
\<close>

theorem C4_mock_mode:
  "useMock p \<longrightarrow>
     transport (POST p req_text) = None
     \<and> (JSON_parse p req_text = Inr body \<and> opt_prop (Some body) ''prompt'' = Some (JString s)
          \<and> s \<noteq> []
        \<longrightarrow> response (POST p req_text) = \<lparr>status = 200, payload = JObject
             [(''validationRules'', JArray [JString ''email: required, must be a valid email'']),
              (''accessibility'', JArray [JString ''Ensure all form fields have associated labels'']),
              (''uxSuggestions'', JArray [JString ''Show inline validation messages as user types'']),
              (''edgeCases'', JArray [JString ''Empty optional fields with default values''])]\<rparr>)"
  using POST_mock(1) [of p req_text] POST_mock(2) [of p req_text body s]
  by (auto simp: canned_def)

theorem C4_witness:
  "useMock mocked
   \<and> JSON_parse mocked ''{\"prompt\":\"form\"}'' = Inr (JObject [(''prompt'', JString ''form'')])
   \<and> transport (POST mocked ''{\"prompt\":\"form\"}'') = None
   \<and> response (POST mocked ''{\"prompt\":\"form\"}'') = \<lparr>status = 200, payload = canned\<rparr>"
  using C4_mock_mode [of mocked "''{\"prompt\":\"form\"}''" "JObject [(''prompt'', JString ''form'')]"
      "''form''"]
  by (simp add: mocked_parse form_request canned_def) (simp add: mocked_def useMock_def scripted_def)

theorem C4_counterexample:
  "useMock mocked
   \<and> POST mocked ''{\"prompt\":\"\"}'' =
        \<lparr>response = \<lparr>status = 400, payload = JObject
           [(''error'', JString ''Missing or invalid 'prompt' in request body'')]\<rparr>,
         transport = None\<rparr>
   \<and> payload (response (POST mocked ''{\"prompt\":\"\"}'')) \<noteq> canned"
proof -
  have m: "useMock mocked" by (simp add: mocked_def useMock_def scripted_def)
  have "POST mocked ''{\"prompt\":\"\"}'' =
        \<lparr>response = \<lparr>status = 400, payload = JObject
           [(''error'', JString ''Missing or invalid 'prompt' in request body'')]\<rparr>,
         transport = None\<rparr>"
    by (simp add: POST_def mocked_parse parse_examples bad_request_def)
  with m show ?thesis by (simp add: canned_def)
qed

text \<open>
  C10, as the code has it. When the body is not JSON, \<^verbatim>\<open>req.json()\<close> throws before the
  prompt is read and \<^verbatim>\<open>callAi\<close> is not called. The \<^verbatim>\<open>catch\<close> of the handler classifies
  the parse error by its message like any other error: 504 when the message contains
  \<^verbatim>\<open>timed out\<close>, else 502 when it contains \<^verbatim>\<open>AI API error\<close>, else 500 with
  \<^verbatim>\<open>Server error\<close>.
\<close>

theorem C10_invalid_json_body:
  "JSON_parse p req_text = Inl error \<longrightarrow>
     transport (POST p req_text) = None
     \<and> response (POST p req_text) =
        (if str_includes (err_message error) ''timed out'' then
           \<lparr>status = 504, payload = JObject [(''error'', JString ''AI request timed out'')]\<rparr>
         else if str_includes (err_message error) ''AI API error'' then
           \<lparr>status = 502, payload = JObject [(''error'', JString ''AI API error''),
                                             (''details'', JString (err_message error))]\<rparr>
         else \<lparr>status = 500, payload = JObject [(''error'', JString ''Server error'')]\<rparr>)"
  by (simp add: POST_not_json catch_response_def)

lemma not_json_examples:
  "JSON_parse (scripted script) ''{\"prompt\": '' = Inl (JsError ''SyntaxError'' ''Unexpected end of JSON input'')"
  "JSON_parse quoting ''timed out''
     = Inl (JsError ''SyntaxError'' ''Unexpected token 'i', \"timed out\" is not valid JSON'')"
  by (simp_all add: quoting_def scripted_def std_JSON_parse_def json_text_def skip_ws_def is_json_ws_def
      push_char_def strip_prefix_def json_number_def is_digit_def)

theorem C10_witness:
  "JSON_parse (scripted (always aborted)) ''{\"prompt\": ''
      = Inl (JsError ''SyntaxError'' ''Unexpected end of JSON input'')
   \<and> transport (POST (scripted (always aborted)) ''{\"prompt\": '') = None
   \<and> response (POST (scripted (always aborted)) ''{\"prompt\": '')
      = \<lparr>status = 500, payload = JObject [(''error'', JString ''Server error'')]\<rparr>"
  using C10_invalid_json_body [of "scripted (always aborted)" "''{\"prompt\": ''"
      "JsError ''SyntaxError'' ''Unexpected end of JSON input''"]
  by (simp add: not_json_examples)

theorem C10_counterexample:
  "JSON_parse quoting ''timed out''
      = Inl (JsError ''SyntaxError'' ''Unexpected token 'i', \"timed out\" is not valid JSON'')
   \<and> POST quoting ''timed out'' =
        \<lparr>response = \<lparr>status = 504, payload = JObject [(''error'', JString ''AI request timed out'')]\<rparr>,
         transport = None\<rparr>"
  by (simp add: POST_not_json not_json_examples catch_response_def)

section \<open>Interpretation of the reply\<close>

lemma extract_spec:
  "extractJsonFromReply parse model_reply =
     (case first_to_last_brace model_reply of
        None \<Rightarrow> JNull
      | Some sub \<Rightarrow> (case parse sub of Inl e \<Rightarrow> JNull | Inr v \<Rightarrow> v))"
  unfolding extractJsonFromReply_def brace_search_spec [symmetric]
  by (cases "rx_search brace_re model_reply") simp_all

lemma first_to_last_brace_iff:
  "first_to_last_brace s = Some sub \<longleftrightarrow>
     (\<exists>pre mid post. s = pre @ sub @ post \<and> sub = CHR ''{'' # mid @ ''}''
        \<and> CHR ''{'' \<notin> set pre \<and> CHR ''}'' \<notin> set post)"
proof
  assume a: "first_to_last_brace s = Some sub"
  then have o: "CHR ''{'' \<in> set s"
    using spec_no_open [of s] by auto
  then obtain pre u where s: "s = pre @ CHR ''{'' # u" and pre: "CHR ''{'' \<notin> set pre"
    by (auto dest: split_list_first)
  have c: "CHR ''}'' \<in> set u"
    using a spec_no_close_after [OF pre, of u] unfolding s by auto
  then obtain mid post where u: "u = mid @ CHR ''}'' # post" and post: "CHR ''}'' \<notin> set post"
    by (auto dest: split_list_last)
  have "sub = CHR ''{'' # mid @ ''}''"
    using a spec_found [OF pre post, of mid] unfolding s u by simp
  with s u pre post show "\<exists>pre mid post. s = pre @ sub @ post \<and> sub = CHR ''{'' # mid @ ''}''
        \<and> CHR ''{'' \<notin> set pre \<and> CHR ''}'' \<notin> set post"
    by (intro exI [of _ pre] exI [of _ mid] exI [of _ post]) simp
next
  assume "\<exists>pre mid post. s = pre @ sub @ post \<and> sub = CHR ''{'' # mid @ ''}''
        \<and> CHR ''{'' \<notin> set pre \<and> CHR ''}'' \<notin> set post"
  then obtain pre mid post where "s = pre @ CHR ''{'' # mid @ CHR ''}'' # post"
    "sub = CHR ''{'' # mid @ ''}''" "CHR ''{'' \<notin> set pre" "CHR ''}'' \<notin> set post"
    by auto
  then show "first_to_last_brace s = Some sub" by (simp add: spec_found)
qed

lemma preamble_span:
  "first_to_last_brace ''preamble {\"validationRules\":[\"a\"]} trailing''
     = Some ''{\"validationRules\":[\"a\"]}''"
  using spec_found [of "''preamble ''" "'' trailing''" "''\"validationRules\":[\"a\"]''"]
  by simp

lemma preamble_parse:
  "std_JSON_parse wording ''{\"validationRules\":[\"a\"]}''
     = Inr (JObject [(''validationRules'', JArray [JString ''a''])])"
  by (simp add: std_JSON_parse_def json_text_def skip_ws_def is_json_ws_def push_char_def)

text \<open>
  C6. \<^verbatim>\<open>extractJsonFromReply\<close> hands to \<^verbatim>\<open>JSON.parse\<close> the substring from the first
  \<^verbatim>\<open>{\<close> to the last \<^verbatim>\<open>}\<close> of the reply, both included, and returns what it parses
  to; it returns \<^verbatim>\<open>null\<close> when there is no such substring or when the parser throws. For
  the reply \<^verbatim>\<open>preamble {"validationRules":["a"]} trailing\<close> the substring is
  \<^verbatim>\<open>{"validationRules":["a"]}\<close> and the result is the object with the one member
  \<^verbatim>\<open>validationRules\<close>, the array of the string \<^verbatim>\<open>a\<close>.
\<close>

theorem C6_extract_first_to_last:
  "extractJsonFromReply parse model_reply =
     (case first_to_last_brace model_reply of
        None \<Rightarrow> JNull
      | Some sub \<Rightarrow> (case parse sub of Inl e \<Rightarrow> JNull | Inr v \<Rightarrow> v))
   \<and> first_to_last_brace ''preamble {\"validationRules\":[\"a\"]} trailing''
       = Some ''{\"validationRules\":[\"a\"]}''
   \<and> extractJsonFromReply (std_JSON_parse wording) ''preamble {\"validationRules\":[\"a\"]} trailing''
       = JObject [(''validationRules'', JArray [JString ''a''])]"
  by (simp add: extract_spec preamble_span preamble_parse)

text \<open>
  C7. When the handler has forwarded the request and \<^verbatim>\<open>callAi\<close> has returned, and the
  model's reply is a text without a substring from a first \<^verbatim>\<open>{\<close> to a last \<^verbatim>\<open>}\<close>, or
  with one that \<^verbatim>\<open>JSON.parse\<close> refuses, the handler answers 500 with the error
  \<^verbatim>\<open>Invalid AI response format\<close> and the reply under \<^verbatim>\<open>raw\<close>.
\<close>

theorem C7_unparsable_reply_500:
  "forwarded p req_text form key
   \<and> outcome (callAi p (fullPrompt form) key) = Inr text
   \<and> parsedReply_of p text = JString model_reply
   \<and> (case first_to_last_brace model_reply of None \<Rightarrow> True | Some sub \<Rightarrow> isl (JSON_parse p sub))
   \<longrightarrow> response (POST p req_text) =
        \<lparr>status = 500, payload = JObject [(''error'', JString ''Invalid AI response format''),
                                          (''raw'', JString model_reply)]\<rparr>"
proof
  assume h: "forwarded p req_text form key
   \<and> outcome (callAi p (fullPrompt form) key) = Inr text
   \<and> parsedReply_of p text = JString model_reply
   \<and> (case first_to_last_brace model_reply of None \<Rightarrow> True | Some sub \<Rightarrow> isl (JSON_parse p sub))"
  then have fw: "forwarded p req_text form key" by simp
  from h have "extractJsonFromReply (JSON_parse p) model_reply = JNull"
    by (auto simp: extract_spec isl_def split: option.splits)
  then have "interpret_reply p (JString model_reply) =
        \<lparr>status = 500, payload = JObject [(''error'', JString ''Invalid AI response format''),
                                          (''raw'', JString model_reply)]\<rparr>"
    by (simp add: interpret_reply_def)
  with h show "response (POST p req_text) =
        \<lparr>status = 500, payload = JObject [(''error'', JString ''Invalid AI response format''),
                                          (''raw'', JString model_reply)]\<rparr>"
    unfolding POST_forwarded [OF fw] by simp
qed

lemma answers_returns:
  "callAi (scripted (answers t)) prompt key =
     \<lparr>outcome = Inr (envelope t), fetches = 1, sleeps = []\<rparr>"
  by (simp add: callAi_def callAi_from.simps loop_body_def try_block_def scripted_def answers_def
      always_def reply_def res_ok_def)

lemma envelope_reply_1:
  "parsedReply_of (scripted script) (envelope ''Sorry, no JSON here'') = JString ''Sorry, no JSON here''"
  by (simp add: parsedReply_of_def envelope_def scripted_def std_JSON_parse_def json_text_def
      skip_ws_def is_json_ws_def push_char_def)

lemma envelope_reply_2:
  "parsedReply_of (scripted script) (envelope ''Here: {rules: none}'') = JString ''Here: {rules: none}''"
  by (simp add: parsedReply_of_def envelope_def scripted_def std_JSON_parse_def json_text_def
      skip_ws_def is_json_ws_def push_char_def)

lemma no_span: "first_to_last_brace ''Sorry, no JSON here'' = None"
  by (simp add: spec_no_open)

lemma bad_span: "first_to_last_brace ''Here: {rules: none}'' = Some ''{rules: none}''"
  using spec_found [of "''Here: ''" "''''" "''rules: none''"] by simp

lemma bad_span_parse: "isl (JSON_parse (scripted script) ''{rules: none}'')"
  by (simp add: scripted_def std_JSON_parse_def json_text_def skip_ws_def is_json_ws_def)

theorem C7_witness:
  "forwarded (scripted (answers ''Sorry, no JSON here'')) ''{\"prompt\":\"form\"}'' ''form'' ''secret''
   \<and> outcome (callAi (scripted (answers ''Sorry, no JSON here'')) (fullPrompt ''form'') ''secret'')
       = Inr (envelope ''Sorry, no JSON here'')
   \<and> first_to_last_brace ''Sorry, no JSON here'' = None
   \<and> response (POST (scripted (answers ''Sorry, no JSON here'')) ''{\"prompt\":\"form\"}'') =
        \<lparr>status = 500, payload = JObject [(''error'', JString ''Invalid AI response format''),
                                          (''raw'', JString ''Sorry, no JSON here'')]\<rparr>
   \<and> first_to_last_brace ''Here: {rules: none}'' = Some ''{rules: none}''
   \<and> isl (JSON_parse (scripted (answers ''Here: {rules: none}'')) ''{rules: none}'')
   \<and> response (POST (scripted (answers ''Here: {rules: none}'')) ''{\"prompt\":\"form\"}'') =
        \<lparr>status = 500, payload = JObject [(''error'', JString ''Invalid AI response format''),
                                          (''raw'', JString ''Here: {rules: none}'')]\<rparr>"
  using
    C7_unparsable_reply_500 [of "scripted (answers ''Sorry, no JSON here'')" "''{\"prompt\":\"form\"}''"
      "''form''" "''secret''" "envelope ''Sorry, no JSON here''" "''Sorry, no JSON here''"]
    C7_unparsable_reply_500 [of "scripted (answers ''Here: {rules: none}'')" "''{\"prompt\":\"form\"}''"
      "''form''" "''secret''" "envelope ''Here: {rules: none}''" "''Here: {rules: none}''"]
  by (simp add: form_forwarded answers_returns envelope_reply_1 envelope_reply_2 no_span bad_span
      bad_span_parse)

text \<open>
  A \<^verbatim>\<open>text\<close> member of the envelope that is not a string is not a reply text:
  \<^verbatim>\<open>reply.match\<close> throws and the handler's \<^verbatim>\<open>catch\<close> answers.
\<close>

lemma non_text_reply:
  "(\<forall>s. parsedReply \<noteq> JString s) \<Longrightarrow>
   interpret_reply p parsedReply
     = \<lparr>status = 500, payload = JObject [(''error'', JString ''Server error'')]\<rparr>"
  by (cases parsedReply) (simp_all add: interpret_reply_def catch_response_def)

end
